theory Spec2Isabelle
  imports Main "HOL-Library.Sublist" "HOL-Library.AList"
begin

section \<open>Deterministic container naming (run_context.go, createContainerName)\<close>

text \<open>
  Go strings are sequences of bytes, modelled as \<open>string\<close>. The regular expressions of
  \<open>createContainerName\<close> read their input rune by rune, decoding UTF-8 as
  \<open>utf8.DecodeRuneInString\<close> does: a byte that does not start a well-formed encoding is a
  rune of its own (\<open>utf8.RuneError\<close>, of width 1).
\<close>

definition isAlnum :: "char \<Rightarrow> bool" where
  "isAlnum c = (c \<in> set ''abcdefghijklmnopqrstuvwxyzABCDEFGHIJKLMNOPQRSTUVWXYZ0123456789'')"

definition isDigit :: "char \<Rightarrow> bool" where
  "isDigit c = (c \<in> set ''0123456789'')"

definition byte :: "char \<Rightarrow> nat" where
  "byte c = of_char c"

definition between :: "nat \<Rightarrow> nat \<Rightarrow> char \<Rightarrow> bool" where
  "between lo hi c = (lo \<le> byte c \<and> byte c \<le> hi)"

text \<open>
  The width that \<open>utf8.DecodeRuneInString(s)\<close> returns: the number of bytes of the first
  rune of \<open>s\<close>. A leading byte \<open>C2..DF\<close> announces two bytes, \<open>E0..EF\<close> three, \<open>F0..F4\<close>
  four; the second byte has to lie in the accepted range of the leading byte (\<open>A0..BF\<close>
  after \<open>E0\<close>, \<open>80..9F\<close> after \<open>ED\<close>, \<open>90..BF\<close> after \<open>F0\<close>, \<open>80..8F\<close> after \<open>F4\<close>,
  \<open>80..BF\<close> otherwise), the further ones in \<open>80..BF\<close>. Anything else is one byte wide.
\<close>

fun DecodeRuneInString_size :: "string \<Rightarrow> nat" where
  "DecodeRuneInString_size [] = 0"
| "DecodeRuneInString_size (s0 # rest) =
     (let sz = (if between 194 223 s0 then 2
                else if between 224 239 s0 then 3
                else if between 240 244 s0 then 4 else 1 :: nat);
          lo = (if byte s0 = 224 then 160 else if byte s0 = 240 then 144 else 128);
          hi = (if byte s0 = 237 then 159 else if byte s0 = 244 then 143 else 191)
      in if sz = 1 \<or> length (s0 # rest) < sz then 1
         else if \<not> between lo hi (rest ! 0) then 1
         else if sz = 2 then 2
         else if \<not> between 128 191 (rest ! 1) then 1
         else if sz = 3 then 3
         else if \<not> between 128 191 (rest ! 2) then 1
         else 4)"

declare DecodeRuneInString_size.simps [simp del]

text \<open>
  \<open>pattern.ReplaceAllString(part, "-")\<close> with \<open>pattern = [^a-zA-Z0-9]\<close>: every rune that
  is not an ASCII letter or digit becomes one hyphen, whatever its width.
\<close>

function sanitize :: "string \<Rightarrow> string" where
  "sanitize [] = []"
| "sanitize (c # cs) =
     (if isAlnum c then c # sanitize cs
      else CHR ''-'' # sanitize (drop (DecodeRuneInString_size (c # cs) - 1) cs))"
  by pat_completeness auto
termination
  by (relation "measure length") auto

declare sanitize.simps [simp del]

text \<open>
  \<open>re.FindStringSubmatch(part)\<close> with \<open>re = -[0-9]+$\<close>: the leftmost position at which a
  hyphen is followed by one or more digits and then the end of the text. \<open>None\<close> is the
  empty result slice, \<open>Some num\<close> the slice whose element 0 is the match. (A hyphen is
  never a byte inside a wider rune, so the positions of the bytes are those of the runes.)
\<close>

fun FindStringSubmatch :: "string \<Rightarrow> string option" where
  "FindStringSubmatch [] = None"
| "FindStringSubmatch (c # cs) =
     (if c = CHR ''-'' \<and> cs \<noteq> [] \<and> list_all isDigit cs then Some (c # cs)
      else FindStringSubmatch cs)"

text \<open>\<open>trimToLen(s, l)\<close>; \<open>s[:l]\<close> counts bytes.\<close>

definition trimToLen :: "string \<Rightarrow> int \<Rightarrow> string" where
  "trimToLen s l =
     (let l' = (if l < 0 then 0 else l) in
      if int (length s) > l' then take (nat l') s else s)"

text \<open>\<open>strings.Join(elems, sep)\<close>.\<close>

fun Join :: "string list \<Rightarrow> string \<Rightarrow> string" where
  "Join [] sep = []"
| "Join [e] sep = e"
| "Join (e # es) sep = e @ sep @ Join es sep"

text \<open>\<open>strings.Trim(s, cutset)\<close>: leading and trailing characters of the cutset go.\<close>

definition Trim :: "string \<Rightarrow> string \<Rightarrow> string" where
  "Trim s cutset =
     rev (dropWhile (\<lambda>c. c \<in> set cutset) (rev (dropWhile (\<lambda>c. c \<in> set cutset) s)))"

text \<open>
  \<open>strings.ReplaceAll(s, old, new)\<close> for a non-empty \<open>old\<close>: one pass from the left over
  non-overlapping occurrences. (The only call has \<open>old = "--"\<close>; for an empty \<open>old\<close> the
  model returns \<open>s\<close>.)
\<close>

function ReplaceAll :: "string \<Rightarrow> string \<Rightarrow> string \<Rightarrow> string" where
  "ReplaceAll [] old new = []"
| "ReplaceAll (c # cs) old new =
     (if old \<noteq> [] \<and> take (length old) (c # cs) = old
      then new @ ReplaceAll (drop (length old) (c # cs)) old new
      else c # ReplaceAll cs old new)"
  by pat_completeness auto
termination
  by (relation "measure (\<lambda>(s, old, new). length s)") auto

text \<open>
  The body of the loop of \<open>createContainerName\<close> for a part that is not the last one:
  the elements it appends to \<open>name\<close>.
\<close>

definition partElems :: "int \<Rightarrow> string \<Rightarrow> string list" where
  "partElems partLen part =
     (case FindStringSubmatch part of
        Some num \<Rightarrow> [trimToLen (sanitize part) (partLen - int (length num)), num]
      | None \<Rightarrow> [trimToLen (sanitize part) partLen])"

text \<open>The loop itself: the last part (\<open>i == len(parts)-1\<close>) is only sanitized.\<close>

fun nameElems :: "int \<Rightarrow> string list \<Rightarrow> string list" where
  "nameElems partLen [] = []"
| "nameElems partLen [part] = [sanitize part]"
| "nameElems partLen (part # rest) = partElems partLen part @ nameElems partLen rest"

text \<open>
  \<open>createContainerName(parts...)\<close>. With no part at all \<open>30 / len(parts)\<close> is an integer
  division by zero, a run-time panic: the model returns \<open>None\<close>.
\<close>

definition createContainerName :: "string list \<Rightarrow> string option" where
  "createContainerName parts =
     (if length parts = 0 then None
      else let partLen = (30 div int (length parts)) - 1 in
        Some (ReplaceAll (Trim (Join (nameElems partLen parts) ''-'') ''-'') ''--'' ''-''))"

section \<open>Data model (run_context.go, RunContext and what it refers to)\<close>

text \<open>
  What ends a call otherwise than by a nil result: a Go \<open>error\<close> value, known by its
  message, or \<open>NilPointerDereference\<close>, the run-time panic of a method call on a nil
  interface value (on \<open>rc.JobContainer\<close>, in \<open>newStepExecutor\<close> and in the clean-up of
  \<open>Executor\<close>). A panic is not an error value: nothing in run_context.go recovers from
  one, so it is not there for a caller to record. The functions that stand for code
  outside the sources return error values.
\<close>

datatype error = Err string | NilPointerDereference


datatype stepStatus = StepStatusSuccess | StepStatusFailure | StepStatusSkipped

text \<open>\<open>model.StepResult\<close>, with the three fields the run context reads and writes.\<close>

record StepResult =
  Outputs :: "string \<rightharpoonup> string"
  Conclusion :: stepStatus
  Outcome :: stepStatus

record JobContext =
  Status :: string

text \<open>\<open>model.Step\<close>, with the fields the run context reads.\<close>

record Step =
  ID :: string
  ContinueOnError :: bool

record FileEntry =
  Name :: string
  Mode :: nat
  Body :: string

text \<open>
  \<open>context.Context\<close> as the code reads it: whether it is derived from the cancelable
  context of the run (\<open>context.Background()\<close> is not), the dry-run flag, and the address
  of the job error container it carries, if any.
\<close>

record Context =
  cancelable :: bool
  Dryrun :: bool
  jobErrorContainer :: "nat option"

definition Background :: Context where
  "Background = \<lparr>cancelable = False, Dryrun = False, jobErrorContainer = None\<rparr>"

text \<open>
  The docker daemon as \<open>NewDockerVolumeRemoveExecutor\<close> reaches it: the named volumes,
  and the failures of \<open>GetDockerClient\<close>, \<open>VolumeList\<close> and \<open>VolumeRemove\<close> (by volume
  name and force flag), \<open>None\<close> when the call succeeds.
\<close>

record docker =
  clientError :: "error option"
  listError :: "error option"
  removeError :: "string \<Rightarrow> bool \<Rightarrow> error option"
  volumes :: "string list"

text \<open>
  Everything outside the run context: the container driver's own state \<open>'d\<close> (containers,
  their files), the docker daemon, and the cancellation of the run's context, which arrives
  from outside at any time (\<open>Some\<close> of what \<open>ctx.Err()\<close> then returns).
\<close>

record 'd world =
  driver :: 'd
  daemon :: docker
  cancelled :: "error option"

text \<open>
  \<open>container.Container\<close> (the interface of part_000), with the methods the modelled
  functions call. A method yields an executor; its implementation is not among the
  sources, so each is a function on the world. \<open>UpdateFromEnv\<close> also returns the
  assignments it makes, in order, to the map it is given.
\<close>

record 'd Container =
  Copy :: "string \<Rightarrow> FileEntry list \<Rightarrow> Context \<Rightarrow> 'd world \<Rightarrow> error option \<times> 'd world"
  UpdateFromEnv ::
    "string \<Rightarrow> Context \<Rightarrow> 'd world \<Rightarrow> (error option \<times> (string \<times> string) list) \<times> 'd world"
  Remove :: "Context \<Rightarrow> 'd world \<Rightarrow> error option \<times> 'd world"
  Close :: "Context \<Rightarrow> 'd world \<Rightarrow> error option \<times> 'd world"

record ExpressionEvaluator =
  Interpolate :: "string \<Rightarrow> string"

text \<open>\<open>Config\<close>, with the fields the modelled functions read.\<close>

record Config =
  Env :: "string \<rightharpoonup> string"
  Secrets :: "string \<rightharpoonup> string"
  Workdir :: string
  Actor :: string
  EventName :: string
  GitHubInstance :: string
  DefaultBranch :: string
  ReuseContainers :: bool
  AutoRemove :: bool

text \<open>
  \<open>RunContext\<close>. \<open>Workflow_Name\<close> and \<open>Workflow_Env\<close> are \<open>rc.Run.Workflow.Name\<close> and
  \<open>rc.Run.Workflow.Env\<close>, \<open>Job_Environment\<close> is \<open>rc.Run.Job().Environment()\<close>. A nil map
  that is only read is the empty map; \<open>rc.Env\<close> is tested for nil, so it is an option.
  \<open>StepResults\<close> is an association list with one entry per key.
\<close>

record 'd RunContext =
  GithubContextBase :: "string option"
  Name :: string
  Config :: Config
  Workflow_Name :: string
  Workflow_Env :: "string \<rightharpoonup> string"
  Job_Environment :: "string \<rightharpoonup> string"
  EventJSON :: string
  Env :: "(string \<rightharpoonup> string) option"
  CurrentStep :: string
  StepResults :: "(string \<times> StepResult) list"
  ExprEval :: ExpressionEvaluator
  JobContainer :: "'d Container option"
  JobName :: string
  actPath :: string
  Local :: bool
  ActionPath :: string
  ActionRef :: string
  ActionRepository :: string

text \<open>
  The state an executor works on: the run context it closes over, the world, the store of
  job error containers (one cell per container, addressed by position) and the log
  (level and message; only the clean-up of \<open>Executor\<close> is modelled with its log lines).
\<close>

record 'd state =
  RC :: "'d RunContext"
  world :: "'d world"
  jobErrors :: "error option list"
  logs :: "(string \<times> string) list"

type_synonym 'd Executor = "Context \<Rightarrow> 'd state \<Rightarrow> error option \<times> 'd state"

text \<open>A driver method, run on the world of the state.\<close>

definition onWorld ::
  "(Context \<Rightarrow> 'd world \<Rightarrow> error option \<times> 'd world) \<Rightarrow> 'd Executor" where
  "onWorld m ctx s = (case m ctx (world s) of (err, w) \<Rightarrow> (err, s\<lparr>world := w\<rparr>))"

text \<open>\<open>ctx.Err()\<close>.\<close>

definition ctx_Err :: "Context \<Rightarrow> 'd state \<Rightarrow> error option" where
  "ctx_Err ctx s = (if cancelable ctx then cancelled (world s) else None)"

text \<open>\<open>err.Error()\<close>, as \<open>%v\<close> prints it.\<close>

fun Error :: "error \<Rightarrow> string" where
  "Error (Err msg) = msg"
| "Error NilPointerDereference = ''invalid memory address or nil pointer dereference''"

section \<open>The executor pipeline (package common)\<close>

text \<open>
  Modelled from the spec: package \<open>common\<close> (\<open>Executor\<close> with \<open>Then\<close>, \<open>Finally\<close>, \<open>If\<close>,
  and \<open>NewPipelineExecutor\<close>) is not among the sources. Section 4.1 of the
  specification: "Sequence(u1..un): run in order; first failure aborts remaining units and
  is the overall result." and "cancellation is observed at combinator boundaries": between
  two units of a sequence a cancelled context ends the sequence with the cancellation
  error.
\<close>

definition Then :: "'d Executor \<Rightarrow> 'd Executor \<Rightarrow> 'd Executor" where
  "Then e then' ctx s =
     (case e ctx s of
        (Some err, s1) \<Rightarrow> (Some err, s1)
      | (None, s1) \<Rightarrow>
          (case ctx_Err ctx s1 of
             Some cerr \<Rightarrow> (Some cerr, s1)
           | None \<Rightarrow> then' ctx s1))"

fun NewPipelineExecutor :: "'d Executor list \<Rightarrow> 'd Executor" where
  "NewPipelineExecutor [] = (\<lambda>ctx s. (None, s))"
| "NewPipelineExecutor [e] = e"
| "NewPipelineExecutor (e # es) = Then e (NewPipelineExecutor es)"

text \<open>
  Modelled from the spec: "Guard(predicate, u): run u only if predicate holds at
  invocation time; otherwise trivially succeeds."
\<close>

definition If :: "'d Executor \<Rightarrow> (Context \<Rightarrow> 'd state \<Rightarrow> bool) \<Rightarrow> 'd Executor" where
  "If e conditional ctx s = (if conditional ctx s then e ctx s else (None, s))"

text \<open>
  Modelled from the spec: "Cleanup(u, c): always run c after u completes or fails; if u
  failed, u's error wins even if c also fails; if u succeeded but c failed, c's error is
  surfaced."
\<close>

definition Finally :: "'d Executor \<Rightarrow> 'd Executor \<Rightarrow> 'd Executor" where
  "Finally e finally ctx s =
     (case e ctx s of
        (err, s1) \<Rightarrow>
          (case finally ctx s1 of
             (err2, s2) \<Rightarrow> (case err of Some x \<Rightarrow> Some x | None \<Rightarrow> err2, s2)))"



definition JobError :: "'d Executor" where
  "JobError ctx s =
     (case jobErrorContainer ctx of
        Some i \<Rightarrow> (if i < length (jobErrors s) then jobErrors s ! i else None, s)
      | None \<Rightarrow> (None, s))"

section \<open>Environment and names of the run context\<close>

definition GetActPath :: "'d RunContext \<Rightarrow> string" where
  "GetActPath rc = (if length (actPath rc) > 0 then actPath rc else ''/var/run/act'')"

definition String :: "'d RunContext \<Rightarrow> string" where
  "String rc = Workflow_Name rc @ ''/'' @ Name rc"

text \<open>\<open>mergeMaps(maps...)\<close>: every map is copied over the result, in the order given.\<close>

definition mergeMaps :: "(string \<rightharpoonup> string) list \<Rightarrow> (string \<rightharpoonup> string)" where
  "mergeMaps maps = foldl (++) Map.empty maps"

text \<open>\<open>GetEnv\<close> returns \<open>rc.Env\<close> and leaves it set in the run context.\<close>

definition GetEnv :: "'d RunContext \<Rightarrow> (string \<rightharpoonup> string) \<times> 'd RunContext" where
  "GetEnv rc =
     (let env0 = (case RunContext.Env rc of
                    None \<Rightarrow> mergeMaps [Config.Env (Config rc), Workflow_Env rc, Job_Environment rc]
                  | Some e \<Rightarrow> e);
          env = env0(''ACT'' \<mapsto> ''true'')
      in (env, rc\<lparr>RunContext.Env := Some env\<rparr>))"

text \<open>\<open>jobContainerName\<close>: \<open>createContainerName\<close> is called with two parts, so it returns.\<close>

definition jobContainerName :: "'d RunContext \<Rightarrow> string" where
  "jobContainerName rc =
     (case createContainerName [''act'', String rc] of Some name \<Rightarrow> name | None \<Rightarrow> [])"

section \<open>Job status (getJobContext)\<close>

fun jobStatusLoop :: "(string \<times> StepResult) list \<Rightarrow> string \<Rightarrow> string" where
  "jobStatusLoop [] jobStatus = jobStatus"
| "jobStatusLoop ((k, stepStatus) # rest) jobStatus =
     (if Conclusion stepStatus = StepStatusFailure then ''failure''
      else jobStatusLoop rest jobStatus)"

definition getJobContext :: "'d RunContext \<Rightarrow> JobContext" where
  "getJobContext rc = \<lparr>Status = jobStatusLoop (StepResults rc) ''success''\<rparr>"

section \<open>Stopping the job container (stopJobContainer, NewDockerVolumeRemoveExecutor)\<close>

text \<open>\<open>cli.VolumeRemove(ctx, volume, force)\<close> on the modelled daemon.\<close>

definition VolumeRemove :: "string \<Rightarrow> bool \<Rightarrow> 'd Executor" where
  "VolumeRemove volume force ctx s =
     (case removeError (daemon (world s)) volume force of
        Some err \<Rightarrow> (Some err, s)
      | None \<Rightarrow>
          (None, s\<lparr>world := (world s)\<lparr>daemon := (daemon (world s))
             \<lparr>volumes := removeAll volume (volumes (daemon (world s)))\<rparr>\<rparr>\<rparr>))"

definition removeExecutor :: "string \<Rightarrow> bool \<Rightarrow> 'd Executor" where
  "removeExecutor volume force ctx s =
     (if Dryrun ctx then (None, s)
      else case clientError (daemon (world s)) of
             Some err \<Rightarrow> (Some err, s)
           | None \<Rightarrow> VolumeRemove volume force ctx s)"

text \<open>The build of part_000 for linux, darwin, windows and openbsd.\<close>

definition NewDockerVolumeRemoveExecutor :: "string \<Rightarrow> bool \<Rightarrow> 'd Executor" where
  "NewDockerVolumeRemoveExecutor volume force ctx s =
     (case clientError (daemon (world s)) of
        Some err \<Rightarrow> (Some err, s)
      | None \<Rightarrow>
          (case listError (daemon (world s)) of
             Some err \<Rightarrow> (Some err, s)
           | None \<Rightarrow>
               if list_ex (\<lambda>vol. vol = volume) (volumes (daemon (world s)))
               then removeExecutor volume force ctx s
               else (None, s)))"

definition stopJobContainer :: "'d Executor" where
  "stopJobContainer ctx s =
     (case JobContainer (RC s) of
        Some c \<Rightarrow>
          if \<not> ReuseContainers (Config (RC s)) then
            Then (onWorld (Remove c))
              (If (Finally (NewDockerVolumeRemoveExecutor (jobContainerName (RC s)) False)
                     (NewDockerVolumeRemoveExecutor (jobContainerName (RC s) @ ''-env'') False))
                  (\<lambda>ctx s. \<not> Local (RC s)))
              ctx s
          else (None, s)
      | None \<Rightarrow> (None, s))"

section \<open>Running one step (newStepExecutor)\<close>

text \<open>
  \<open>StepContext\<close>: the step, and the step runner's contract (section 6 of the
  specification), whose implementation is not among the sources: \<open>isEnabled\<close> evaluates
  the step's condition on the state, \<open>setupEnv\<close> yields the step's evaluator and its
  environment \<open>sc.Env\<close>, \<open>Executor\<close> is the step body, run with that environment.
  \<open>setupEnv\<close> and the body act on the world; the bookkeeping of the run context
  (\<open>CurrentStep\<close>, \<open>StepResults\<close>, \<open>JobContainer\<close>) is written by \<open>newStepExecutor\<close>
  alone.
\<close>

record 'd StepContext =
  Step :: Step
  isEnabled :: "Context \<Rightarrow> 'd state \<Rightarrow> error + bool"
  setupEnv ::
    "Context \<Rightarrow> 'd world \<Rightarrow> (error + ExpressionEvaluator \<times> (string \<rightharpoonup> string)) \<times> 'd world"
  Executor :: "(string \<rightharpoonup> string) \<Rightarrow> Context \<Rightarrow> 'd world \<Rightarrow> error option \<times> 'd world"

text \<open>The elements of a path: the non-empty texts between its slashes.\<close>

function elements :: "string \<Rightarrow> string list" where
  "elements [] = []"
| "elements (c # cs) =
     (if c = CHR ''/'' then elements cs
      else takeWhile (\<lambda>x. x \<noteq> CHR ''/'') (c # cs) #
           elements (dropWhile (\<lambda>x. x \<noteq> CHR ''/'') cs))"
  by pat_completeness auto
termination
  by (relation "measure length") (auto simp: length_dropWhile_le less_Suc_eq_le)

text \<open>
  One element in \<open>path.Clean\<close>, \<open>out\<close> being the elements kept so far: \<open>.\<close> is dropped;
  \<open>..\<close> takes back the element before it when there is one that is not \<open>..\<close> itself,
  is kept in a path that is not rooted, and is dropped at the root.
\<close>

definition cleanElement :: "bool \<Rightarrow> string list \<Rightarrow> string \<Rightarrow> string list" where
  "cleanElement rooted out e =
     (if e = ''.'' then out
      else if e = ''..'' then
        (if out \<noteq> [] \<and> last out \<noteq> ''..'' then butlast out
         else if \<not> rooted then out @ [''..'']
         else out)
      else out @ [e])"

text \<open>\<open>path.Clean(p)\<close>: the shortest path of the same meaning; \<open>.\<close> for an empty one.\<close>

definition Clean :: "string \<Rightarrow> string" where
  "Clean p =
     (if p = [] then ''.''
      else let rooted = (hd p = CHR ''/'');
               out = (if rooted then ''/'' else []) @
                     Join (foldl (cleanElement rooted) [] (elements p)) ''/''
           in if out = [] then ''.'' else out)"

text \<open>
  \<open>path.Join(elem...)\<close>: the elements from the first non-empty one on, joined with
  slashes, and the result cleaned; the empty string when every element is empty.
\<close>

definition path_Join :: "string list \<Rightarrow> string" where
  "path_Join elem =
     (case dropWhile (\<lambda>e. e = []) elem of
        [] \<Rightarrow> []
      | e # es \<Rightarrow> Clean (Join (e # es) ''/''))"

text \<open>
  \<open>rc.StepResults[rc.CurrentStep].f = v\<close>: an update of the current step's result. (Where
  the code does this, the entry exists: \<open>newStepExecutor\<close> has just stored it.)
\<close>

definition updStepResult :: "(StepResult \<Rightarrow> StepResult) \<Rightarrow> 'd state \<Rightarrow> 'd state" where
  "updStepResult f s =
     s\<lparr>RC := (RC s)\<lparr>StepResults :=
        AList.map_entry (CurrentStep (RC s)) f (StepResults (RC s))\<rparr>\<rparr>"

text \<open>
  Modelled from the spec: \<open>rc.setOutput\<close> is not among the sources. Section 4.2: "every
  parsed key/value pair is published to that step's output mapping".
\<close>

definition setOutput :: "Context \<Rightarrow> string \<Rightarrow> string \<Rightarrow> 'd state \<Rightarrow> 'd state" where
  "setOutput ctx name arg s = updStepResult (\<lambda>r. r\<lparr>Outputs := (Outputs r)(name \<mapsto> arg)\<rparr>) s"

text \<open>
  "Process Runner File Commands", the end of \<open>newStepExecutor\<close>: \<open>orgerr\<close> is the error
  kept from the step body. The map \<open>output\<close> is built from the assignments of
  \<open>UpdateFromEnv\<close>; the loop over it publishes each of its entries.
\<close>

definition processRunnerFileCommands ::
  "'d Container \<Rightarrow> error option \<Rightarrow> string \<Rightarrow> 'd Executor" where
  "processRunnerFileCommands c orgerr file ctx s =
     (case UpdateFromEnv c file ctx (world s) of
        ((Some err, writes), w) \<Rightarrow> (Some err, s\<lparr>world := w\<rparr>)
      | ((None, writes), w) \<Rightarrow>
          (let output = foldl (\<lambda>m (k, v). AList.update k v m) [] writes;
               s' = foldl (\<lambda>s (k, v). setOutput ctx k v s) (s\<lparr>world := w\<rparr>) output
           in (orgerr, s')))"

text \<open>The names of the two command files, and the entries that empty them.\<close>

definition outputFileCommand :: string where
  "outputFileCommand = path_Join [''workflow'', ''outputcmd.txt'']"

definition stateFileCommand :: string where
  "stateFileCommand = path_Join [''workflow'', ''statecmd.txt'']"

definition fileCommandEntries :: "FileEntry list" where
  "fileCommandEntries =
     [\<lparr>FileEntry.Name = outputFileCommand, Mode = 438, Body = []\<rparr>,
      \<lparr>FileEntry.Name = stateFileCommand, Mode = 438, Body = []\<rparr>]"

text \<open>\<open>sc.Env\<close> after the two assignments \<open>sc.Env["GITHUB_OUTPUT"] = ...\<close> and
  \<open>sc.Env["GITHUB_STATE"] = ...\<close>.\<close>

definition fileCommandEnv :: "string \<Rightarrow> (string \<rightharpoonup> string) \<Rightarrow> (string \<rightharpoonup> string)" where
  "fileCommandEnv path env =
     env(''GITHUB_OUTPUT'' \<mapsto> path_Join [path, outputFileCommand],
         ''GITHUB_STATE'' \<mapsto> path_Join [path, stateFileCommand])"

text \<open>\<open>newStepExecutor\<close> from "Prepare and clean Runner File Commands" on: the step is
  enabled and \<open>setupEnv\<close> has returned \<open>exprEval\<close> and the environment \<open>env\<close>. The error
  of the copy that empties the command files is dropped, as in the code. With a nil
  \<open>rc.JobContainer\<close> the call of \<open>Copy\<close> panics.\<close>

definition runStepBody ::
  "'d StepContext \<Rightarrow> ExpressionEvaluator \<Rightarrow> (string \<rightharpoonup> string) \<Rightarrow> 'd Executor" where
  "runStepBody sc exprEval env ctx s =
     (let s1 = s\<lparr>RC := (RC s)\<lparr>ExprEval := exprEval\<rparr>\<rparr>;
          path = GetActPath (RC s1)
      in case JobContainer (RC s1) of
           None \<Rightarrow> (Some NilPointerDereference, s1)
         | Some c \<Rightarrow>
             (case Copy c path fileCommandEntries ctx (world s1) of
                (copyerr, w2) \<Rightarrow>
                  (case StepContext.Executor sc (fileCommandEnv path env) ctx w2 of
                     (None, w3) \<Rightarrow>
                       processRunnerFileCommands c None
                         (path_Join [path, outputFileCommand]) ctx (s1\<lparr>world := w3\<rparr>)
                   | (Some err, w3) \<Rightarrow>
                       (let s3 = updStepResult (\<lambda>r. r\<lparr>Outcome := StepStatusFailure\<rparr>)
                                   (s1\<lparr>world := w3\<rparr>)
                        in if ContinueOnError (Step sc) then
                             processRunnerFileCommands c None
                               (path_Join [path, outputFileCommand]) ctx
                               (updStepResult (\<lambda>r. r\<lparr>Conclusion := StepStatusSuccess\<rparr>) s3)
                           else
                             processRunnerFileCommands c (Some err)
                               (path_Join [path, outputFileCommand]) ctx
                               (updStepResult (\<lambda>r. r\<lparr>Conclusion := StepStatusFailure\<rparr>) s3)))))"

text \<open>The first two statements of \<open>newStepExecutor\<close>: the step becomes the current step
  and gets a fresh result, optimistically successful.\<close>

definition beginStep :: "'d StepContext \<Rightarrow> 'd state \<Rightarrow> 'd state" where
  "beginStep sc s =
     (let s1 = s\<lparr>RC := (RC s)\<lparr>CurrentStep := ID (Step sc)\<rparr>\<rparr>
      in s1\<lparr>RC := (RC s1)\<lparr>StepResults :=
            AList.update (CurrentStep (RC s1))
              \<lparr>Outputs = Map.empty, Conclusion = StepStatusSuccess,
               Outcome = StepStatusSuccess\<rparr>
              (StepResults (RC s1))\<rparr>\<rparr>)"

definition newStepExecutor :: "'d StepContext \<Rightarrow> 'd Executor" where
  "newStepExecutor sc ctx s =
     (let s2 = beginStep sc s
      in case isEnabled sc ctx s2 of
           Inl err \<Rightarrow>
             (Some err,
              updStepResult (\<lambda>r. r\<lparr>Outcome := StepStatusFailure\<rparr>)
                (updStepResult (\<lambda>r. r\<lparr>Conclusion := StepStatusFailure\<rparr>) s2))
         | Inr runStep \<Rightarrow>
             if \<not> runStep then
               (None,
                updStepResult (\<lambda>r. r\<lparr>Outcome := StepStatusSkipped\<rparr>)
                  (updStepResult (\<lambda>r. r\<lparr>Conclusion := StepStatusSkipped\<rparr>) s2))
             else
               (case setupEnv sc ctx (world s2) of
                  (Inl err, w) \<Rightarrow> (Some err, s2\<lparr>world := w\<rparr>)
                | (Inr (exprEval, env), w) \<Rightarrow> runStepBody sc exprEval env ctx (s2\<lparr>world := w\<rparr>)))"

section \<open>Composite actions (CompositeExecutor)\<close>







definition recordJobError :: "nat \<Rightarrow> error option \<Rightarrow> 'd state \<Rightarrow> 'd state" where
  "recordJobError k e s =
     (case e of Some err \<Rightarrow> s\<lparr>jobErrors := (jobErrors s)[k := Some err]\<rparr> | None \<Rightarrow> s)"





section \<open>The job pipeline and its clean-up (Executor)\<close>

text \<open>The function \<open>Executor\<close> hands to \<open>Finally\<close>; it works under
  \<open>context.Background()\<close>, whatever context it is given.\<close>

definition Executor_finally :: "'d Executor" where
  "Executor_finally ctx0 s =
     (case JobContainer (RC s) of
        Some c \<Rightarrow>
          (let ctx = Background;
               s1 = (if AutoRemove (Config (RC s)) then
                       (let s' = s\<lparr>logs := logs s @
                                  [(''info'', ''Cleaning up container for job '' @ JobName (RC s))]\<rparr>
                        in case stopJobContainer ctx s' of
                             (Some err, s'') \<Rightarrow>
                               s''\<lparr>logs := logs s'' @
                                  [(''error'', ''Error while cleaning container: '' @ Error err)]\<rparr>
                           | (None, s'') \<Rightarrow> s'')
                     else s)
           in case JobContainer (RC s1) of
                Some c1 \<Rightarrow> onWorld (Close c1) ctx s1
              | None \<Rightarrow> (Some NilPointerDereference, s1))
      | None \<Rightarrow> (None, s))"

text \<open>
  \<open>Executor\<close>. \<open>newJobExecutor(rc)\<close>, the pipeline of the job's steps, is not among the
  sources: it is the parameter \<open>newJobExecutor\<close>. The gate \<open>rc.isEnabled\<close> evaluates the
  job's condition and looks its platform up; it is the parameter \<open>rc_isEnabled\<close>.
\<close>

definition Executor :: "'d Executor \<Rightarrow> (Context \<Rightarrow> 'd state \<Rightarrow> bool) \<Rightarrow> 'd Executor" where
  "Executor newJobExecutor rc_isEnabled =
     If (Finally newJobExecutor Executor_finally) rc_isEnabled"

section \<open>The GitHub context (getGithubContext, applyDefaults)\<close>

text \<open>A decoded JSON value, as far as \<open>nestedMapLookup\<close> and \<open>asString\<close> tell values
  apart: a string, an object, or anything else.\<close>

datatype jvalue = JString string | JObject "(string \<times> jvalue) list" | JOther

text \<open>\<open>model.GithubContext\<close>, with the fields the run context reads and writes.\<close>

record GithubContext =
  Event :: "(string \<times> jvalue) list"
  EventPath :: string
  Workflow :: string
  RunID :: string
  RunNumber :: string
  RunAttempt :: string
  Actor :: string
  Repository :: string
  EventName :: string
  Sha :: string
  Ref :: string
  HeadRef :: string
  BaseRef :: string
  Token :: string
  Workspace :: string
  Action :: string
  ActionPath :: string
  ActionRef :: string
  ActionRepository :: string
  RepositoryOwner :: string
  RetentionDays :: string
  RunnerPerflog :: string
  RunnerTrackingID :: string

text \<open>
  What \<open>getGithubContext\<close> and \<open>applyDefaults\<close> call and the sources do not hold:
  \<open>json.Unmarshal\<close> into a \<open>GithubContext\<close> and into the event map (the error, and the
  target as the decoder leaves it), \<open>common.FindGithubRepo(repoPath, githubInstance)\<close>,
  \<open>ghc.SetRefAndSha(defaultBranch, repoPath)\<close> and \<open>rc.ContainerWorkdir()\<close>.
\<close>

record externals =
  json_Unmarshal :: "string \<Rightarrow> GithubContext \<Rightarrow> error option \<times> GithubContext"
  json_Unmarshal_Event ::
    "string \<Rightarrow> (string \<times> jvalue) list \<Rightarrow> error option \<times> (string \<times> jvalue) list"
  FindGithubRepo :: "string \<Rightarrow> string \<Rightarrow> error + string"
  SetRefAndSha :: "string \<Rightarrow> string \<Rightarrow> GithubContext \<Rightarrow> GithubContext"
  ContainerWorkdir :: string

text \<open>\<open>m[k]\<close> on a map of strings: the empty string for a key that is not there.\<close>

definition index :: "(string \<rightharpoonup> string) \<Rightarrow> string \<Rightarrow> string" where
  "index m k = (case m k of Some v \<Rightarrow> v | None \<Rightarrow> [])"

fun asString :: "jvalue option \<Rightarrow> string" where
  "asString None = []"
| "asString (Some (JString s)) = s"
| "asString (Some v) = []"

fun nestedMapLookup :: "(string \<times> jvalue) list \<Rightarrow> string list \<Rightarrow> jvalue option" where
  "nestedMapLookup m [] = None"
| "nestedMapLookup m [k] = map_of m k"
| "nestedMapLookup m (k # ks) =
     (case map_of m k of
        None \<Rightarrow> None
      | Some (JObject m') \<Rightarrow> nestedMapLookup m' ks
      | Some v \<Rightarrow> None)"

text \<open>\<open>strings.Split(repo, "/")[0]\<close>: the text before the first slash.\<close>

definition Split0 :: "string \<Rightarrow> string" where
  "Split0 repo = takeWhile (\<lambda>c. c \<noteq> CHR ''/'') repo"

definition applyDefaults :: "externals \<Rightarrow> GithubContext \<Rightarrow> 'd RunContext \<Rightarrow> GithubContext" where
  "applyDefaults ext ghc rc =
     (let ghc = (if RunID ghc = [] then ghc\<lparr>RunID := ''1''\<rparr> else ghc);
          ghc = (if RunNumber ghc = [] then ghc\<lparr>RunNumber := ''1''\<rparr> else ghc);
          ghc = (if RunAttempt ghc = [] then ghc\<lparr>RunAttempt := ''1''\<rparr> else ghc);
          ghc = (if RetentionDays ghc = [] then ghc\<lparr>RetentionDays := ''0''\<rparr> else ghc);
          ghc = (if RunnerPerflog ghc = [] then ghc\<lparr>RunnerPerflog := ''/dev/null''\<rparr> else ghc);
          ghc = (if GithubContext.Actor ghc = []
                 then ghc\<lparr>GithubContext.Actor := ''nektos/act''\<rparr> else ghc);
          repoPath = Workdir (Config rc);
          ghc = (case FindGithubRepo ext repoPath (GitHubInstance (Config rc)) of
                   Inl err \<Rightarrow> ghc
                 | Inr repo \<Rightarrow>
                     (let ghc = ghc\<lparr>Repository := repo\<rparr>
                      in if RepositoryOwner ghc = []
                         then ghc\<lparr>RepositoryOwner := Split0 repo\<rparr> else ghc));
          ghc = (if EventJSON rc \<noteq> []
                 then ghc\<lparr>Event := snd (json_Unmarshal_Event ext (EventJSON rc) (Event ghc))\<rparr>
                 else ghc);
          ghc = (if GithubContext.EventName ghc = ''pull_request''
                 then ghc\<lparr>BaseRef := asString (nestedMapLookup (Event ghc)
                                          [''pull_request'', ''base'', ''ref'']),
                          HeadRef := asString (nestedMapLookup (Event ghc)
                                          [''pull_request'', ''head'', ''ref''])\<rparr>
                 else ghc)
      in SetRefAndSha ext (DefaultBranch (Config rc)) repoPath ghc)"

text \<open>The value \<open>getGithubContext\<close> builds first, from the run context alone; the
  fields it does not name are empty.\<close>

definition newGithubContext :: "externals \<Rightarrow> 'd RunContext \<Rightarrow> GithubContext" where
  "newGithubContext ext rc =
     \<lparr>Event = [],
      EventPath = GetActPath rc @ ''/workflow/event.json'',
      Workflow = Workflow_Name rc,
      RunID = index (Config.Env (Config rc)) ''GITHUB_RUN_ID'',
      RunNumber = index (Config.Env (Config rc)) ''GITHUB_RUN_NUMBER'',
      RunAttempt = index (Config.Env (Config rc)) ''GITHUB_RUN_ATTEMPT'',
      Actor = Config.Actor (Config rc),
      Repository = [],
      EventName = Config.EventName (Config rc),
      Sha = [], Ref = [], HeadRef = [], BaseRef = [],
      Token = index (Secrets (Config rc)) ''GITHUB_TOKEN'',
      Workspace = ContainerWorkdir ext,
      Action = CurrentStep rc,
      ActionPath = RunContext.ActionPath rc,
      ActionRef = RunContext.ActionRef rc,
      ActionRepository = RunContext.ActionRepository rc,
      RepositoryOwner = index (Config.Env (Config rc)) ''GITHUB_REPOSITORY_OWNER'',
      RetentionDays = index (Config.Env (Config rc)) ''GITHUB_RETENTION_DAYS'',
      RunnerPerflog = index (Config.Env (Config rc)) ''RUNNER_PERFLOG'',
      RunnerTrackingID = index (Config.Env (Config rc)) ''RUNNER_TRACKING_ID''\<rparr>"

definition getGithubContext :: "externals \<Rightarrow> 'd RunContext \<Rightarrow> GithubContext" where
  "getGithubContext ext rc =
     (let ghc = newGithubContext ext rc
      in case GithubContextBase rc of
           Some base \<Rightarrow>
             (case json_Unmarshal ext base ghc of
                (None, ghc') \<Rightarrow> ghc'
              | (Some err, ghc') \<Rightarrow> applyDefaults ext ghc' rc)
         | None \<Rightarrow> applyDefaults ext ghc rc)"

text \<open>The zero value of \<open>GithubContext\<close>: what a decoder fills when it is given nothing
  else.\<close>

definition zeroGithubContext :: GithubContext where
  "zeroGithubContext =
     \<lparr>Event = [], EventPath = [], Workflow = [], RunID = [], RunNumber = [], RunAttempt = [],
      Actor = [], Repository = [], EventName = [], Sha = [], Ref = [], HeadRef = [],
      BaseRef = [], Token = [], Workspace = [], Action = [], ActionPath = [], ActionRef = [],
      ActionRepository = [], RepositoryOwner = [], RetentionDays = [], RunnerPerflog = [],
      RunnerTrackingID = []\<rparr>"

section \<open>Example values\<close>

text \<open>A run context of a job \<open>build\<close> of a workflow \<open>CI\<close>, before its first step, with no
  container yet; the environment layers are those of the example of the specification.\<close>

definition rc0 :: "bool RunContext" where
  "rc0 = \<lparr>GithubContextBase = None, Name = ''build'',
     Config = \<lparr>Config.Env = Map.empty, Secrets = Map.empty, Workdir = ''/repo'',
       Config.Actor = ''octocat'', Config.EventName = ''push'', GitHubInstance = ''github.com'',
       DefaultBranch = ''main'', ReuseContainers = False, AutoRemove = True\<rparr>,
     Workflow_Name = ''CI'', Workflow_Env = [''A'' \<mapsto> ''1''],
     Job_Environment = [''A'' \<mapsto> ''2'', ''B'' \<mapsto> ''3''], EventJSON = [],
     Env = None, CurrentStep = [], StepResults = [],
     ExprEval = \<lparr>Interpolate = (\<lambda>s. s)\<rparr>, JobContainer = None, JobName = ''build'',
     actPath = [], Local = False, RunContext.ActionPath = [], RunContext.ActionRef = [],
     RunContext.ActionRepository = []\<rparr>"

text \<open>A context derived from the cancelable context of the run.\<close>

definition ctx0 :: Context where
  "ctx0 = \<lparr>cancelable = True, Dryrun = False, jobErrorContainer = None\<rparr>"

text \<open>A daemon that answers every call and holds the two volumes of the job \<open>CI/build\<close>.\<close>

definition daemon0 :: docker where
  "daemon0 = \<lparr>clientError = None, listError = None, removeError = (\<lambda>volume force. None),
     volumes = [''act-CI-build'', ''act-CI-build-env'', ''act-toolcache'']\<rparr>"

text \<open>A driver whose state is whether the job container exists.\<close>

definition world0 :: "bool world" where
  "world0 = \<lparr>driver = True, daemon = daemon0, cancelled = None\<rparr>"

text \<open>The handle of that container: removing it succeeds, and the output file holds
  \<open>a=1\<close> and \<open>b=2\<close>.\<close>

definition container0 :: "bool Container" where
  "container0 =
     \<lparr>Copy = (\<lambda>destPath files ctx w. (None, w)),
      UpdateFromEnv = (\<lambda>srcPath ctx w. ((None, [(''a'', ''1''), (''b'', ''2'')]), w)),
      Remove = (\<lambda>ctx w. (None, w\<lparr>driver := False\<rparr>)),
      Close = (\<lambda>ctx w. (None, w))\<rparr>"

definition state0 :: "bool state" where
  "state0 = \<lparr>RC = rc0\<lparr>JobContainer := Some container0\<rparr>, world = world0,
     jobErrors = [], logs = []\<rparr>"

text \<open>A step \<open>s1\<close> that is enabled and whose body fails.\<close>

definition failingStep :: "bool \<Rightarrow> bool StepContext" where
  "failingStep continue =
     \<lparr>Step = \<lparr>ID = ''s1'', ContinueOnError = continue\<rparr>,
      isEnabled = (\<lambda>ctx s. Inr True),
      setupEnv = (\<lambda>ctx w. (Inr (\<lparr>Interpolate = (\<lambda>s. s)\<rparr>, Map.empty), w)),
      Executor = (\<lambda>env ctx w. (Some (Err ''exit status 1''), w))\<rparr>"

text \<open>A step with continue-on-error whose body fails after the run has been cancelled.\<close>

definition failingCancelledStep :: "bool StepContext" where
  "failingCancelledStep =
     \<lparr>Step = \<lparr>ID = ''s1'', ContinueOnError = True\<rparr>,
      isEnabled = (\<lambda>ctx s. Inr True),
      setupEnv = (\<lambda>ctx w. (Inr (\<lparr>Interpolate = (\<lambda>s. s)\<rparr>, Map.empty), w)),
      Executor = (\<lambda>env ctx w.
         (Some (Err ''exit status 1''), w\<lparr>cancelled := Some (Err ''context canceled'')\<rparr>))\<rparr>"

text \<open>The same container, with an output file that cannot be read.\<close>

definition unreadable :: "bool Container" where
  "unreadable = container0\<lparr>UpdateFromEnv :=
     (\<lambda>srcPath ctx w. ((Some (Err ''cannot read the output file''), []), w))\<rparr>"

definition state1 :: "bool state" where
  "state1 = state0\<lparr>RC := (RC state0)\<lparr>JobContainer := Some unreadable\<rparr>\<rparr>"

text \<open>The state of the example with container reuse configured.\<close>

definition reuseState :: "bool state" where
  "reuseState = state0\<lparr>RC := (RC state0)\<lparr>Config := (Config (RC state0))\<lparr>ReuseContainers := True\<rparr>\<rparr>\<rparr>"

text \<open>A container whose \<open>Close\<close> fails, and the state of the example with it.\<close>

definition uncloseable :: "bool Container" where
  "uncloseable = container0\<lparr>Close := (\<lambda>ctx w. (Some (Err ''close failed''), w))\<rparr>"

definition state2 :: "bool state" where
  "state2 = state0\<lparr>RC := (RC state0)\<lparr>JobContainer := Some uncloseable\<rparr>\<rparr>"

text \<open>A job pipeline whose steps all succeed.\<close>

definition succeedingJob :: "bool Executor" where
  "succeedingJob ctx s = (None, s)"



text \<open>
  What the examples of the GitHub context take for the functions that are not among the
  sources. The decoder knows one text, the object without members \<open>{}\<close>: it decodes
  without an error and assigns nothing, as \<open>json.Unmarshal\<close> does with it. It takes every
  other text for a truncated one, as \<open>json.Unmarshal\<close> does with \<open>{\<close>: the error is found
  before anything is assigned.
\<close>

definition emptyObjectDecoder :: "string \<Rightarrow> GithubContext \<Rightarrow> error option \<times> GithubContext" where
  "emptyObjectDecoder text ghc =
     (if text = ''{}'' then (None, ghc)
      else (Some (Err ''unexpected end of JSON input''), ghc))"

definition externals0 :: externals where
  "externals0 =
     \<lparr>json_Unmarshal = emptyObjectDecoder,
      json_Unmarshal_Event = (\<lambda>text event. (None, event)),
      FindGithubRepo = (\<lambda>repoPath githubInstance. Inr ''octo/repo''),
      SetRefAndSha = (\<lambda>defaultBranch repoPath ghc.
         ghc\<lparr>Ref := ''refs/heads/'' @ defaultBranch, Sha := ''0123abc''\<rparr>),
      ContainerWorkdir = ''/repo''\<rparr>"

section \<open>Properties of the container name\<close>

text \<open>On ASCII text a rune is a byte, and a wider rune gives one hyphen.\<close>

lemma DecodeRuneInString_size_ascii: "byte c < 128 \<Longrightarrow> DecodeRuneInString_size (c # cs) = 1"
  by (simp add: DecodeRuneInString_size.simps between_def Let_def)

lemma sanitize_ascii:
  "list_all (\<lambda>c. byte c < 128) s \<Longrightarrow>
   sanitize s = map (\<lambda>c. if isAlnum c then c else CHR ''-'') s"
  by (induction s) (simp_all add: sanitize.simps DecodeRuneInString_size_ascii)

lemmas sanitize_defs =
  sanitize.simps DecodeRuneInString_size.simps isAlnum_def between_def byte_def

lemma sanitize_wide:
  "sanitize [CHR ''a'', CHR 0xC3, CHR 0xA9, CHR ''b''] = ''a-b''"
  "sanitize [CHR 0xE2, CHR 0x82, CHR 0xAC] = ''-''"
  "sanitize [CHR 0xE2, CHR 0x82, CHR ''b''] = ''--b''"
  by (simp_all add: sanitize_defs)

lemma sanitize_length: "length (sanitize s) \<le> length s"
proof (induction s rule: sanitize.induct)
  case 1
  then show ?case by (simp add: sanitize.simps)
next
  case (2 c cs)
  show ?case
  proof (cases "isAlnum c")
    case True
    with 2 show ?thesis by (simp add: sanitize.simps)
  next
    case False
    with 2 have "length (sanitize (drop (DecodeRuneInString_size (c # cs) - 1) cs))
        \<le> length (drop (DecodeRuneInString_size (c # cs) - 1) cs)" by simp
    also have "\<dots> \<le> length cs" by simp
    finally show ?thesis using False by (simp add: sanitize.simps)
  qed
qed

lemma sanitize_chars: "c \<in> set (sanitize s) \<Longrightarrow> isAlnum c \<or> c = CHR ''-''"
proof (induction s rule: sanitize.induct)
  case 1
  then show ?case by (simp add: sanitize.simps)
next
  case (2 a cs)
  then show ?case by (cases "isAlnum a") (auto simp: sanitize.simps)
qed

lemmas name_defs = createContainerName_def sanitize_defs Trim_def trimToLen_def isDigit_def partElems_def

lemma trimToLen_take: "trimToLen s l = take (nat l) s"
  by (auto simp: trimToLen_def Let_def)

lemma FindStringSubmatch_Some:
  "FindStringSubmatch s = Some num \<Longrightarrow>
     \<exists>d ds. num = CHR ''-'' # d # ds \<and> isDigit d \<and> list_all isDigit ds"
proof (induction s)
  case Nil
  then show ?case by simp
next
  case (Cons c cs)
  then show ?case
    by (cases cs) (auto split: if_splits)
qed

lemma isDigit_not_hyphen: "isDigit d \<Longrightarrow> d \<noteq> CHR ''-''"
  by (auto simp: isDigit_def)

lemma ReplaceAll_hh [simp]:
  "ReplaceAll (CHR ''-'' # CHR ''-'' # r) ''--'' ''-'' = CHR ''-'' # ReplaceAll r ''--'' ''-''"
  by simp

lemma ReplaceAll_other [simp]:
  "c \<noteq> CHR ''-'' \<Longrightarrow> ReplaceAll (c # r) ''--'' ''-'' = c # ReplaceAll r ''--'' ''-''"
  by (cases r) auto

lemma ReplaceAll_h_other [simp]:
  "c \<noteq> CHR ''-'' \<Longrightarrow>
   ReplaceAll (CHR ''-'' # c # r) ''--'' ''-'' = CHR ''-'' # c # ReplaceAll r ''--'' ''-''"
  by (cases r) auto

lemma ReplaceAll_h [simp]: "ReplaceAll ''-'' ''--'' ''-'' = ''-''"
  by simp

text \<open>A character that is not a hyphen splits the replacement in two.\<close>

lemma ReplaceAll_split:
  "d \<noteq> CHR ''-'' \<Longrightarrow>
   ReplaceAll (u @ d # w) ''--'' ''-'' = ReplaceAll u ''--'' ''-'' @ d # ReplaceAll w ''--'' ''-''"
proof (induction u "''--''" "''-''" rule: ReplaceAll.induct)
  case 1
  then show ?case by simp
next
  case (2 c cs)
  show ?case
  proof (cases "c = CHR ''-''")
    case False
    with 2 show ?thesis by simp
  next
    case c: True
    show ?thesis
    proof (cases cs)
      case Nil
      with c 2 show ?thesis by simp
    next
      case (Cons c' cs')
      show ?thesis
      proof (cases "c' = CHR ''-''")
        case True
        with c Cons 2 show ?thesis by simp
      next
        case False
        with c Cons 2 show ?thesis by simp
      qed
    qed
  qed
qed

lemma nameElems_nonempty: "ps \<noteq> [] \<Longrightarrow> nameElems L ps \<noteq> []"
  by (induction L ps rule: nameElems.induct) (auto simp: partElems_def split: option.splits)

lemma nameElems_append:
  "rest \<noteq> [] \<Longrightarrow>
   nameElems L (pre @ part # rest) =
     concat (map (partElems L) pre) @ partElems L part @ nameElems L rest"
proof (induction pre)
  case Nil
  then show ?case by (cases rest) auto
next
  case (Cons p pre)
  then show ?case by (cases "pre @ part # rest") auto
qed

lemma Join_append:
  "xs \<noteq> [] \<Longrightarrow> ys \<noteq> [] \<Longrightarrow> Join (xs @ ys) sep = Join xs sep @ sep @ Join ys sep"
proof (induction xs sep rule: Join.induct)
  case (1 sep)
  then show ?case by simp
next
  case (2 e sep)
  then show ?case by (cases ys) auto
next
  case (3 e v va sep)
  then show ?case by simp
qed

lemma dropWhile_mid: "\<not> P d \<Longrightarrow> dropWhile P (u @ d # v) = dropWhile P u @ d # v"
  by (induction u) auto

lemma Trim_mid:
  "d \<notin> set cs \<Longrightarrow>
   Trim (u @ d # v) cs =
     dropWhile (\<lambda>c. c \<in> set cs) u @ d # rev (dropWhile (\<lambda>c. c \<in> set cs) (rev v))"
proof -
  assume d: "d \<notin> set cs"
  let ?P = "\<lambda>c. c \<in> set cs"
  have "rev (dropWhile ?P u @ d # v) = rev v @ d # rev (dropWhile ?P u)" by simp
  then have "dropWhile ?P (rev (dropWhile ?P u @ d # v)) =
      dropWhile ?P (rev v) @ d # rev (dropWhile ?P u)"
    using d by (simp add: dropWhile_mid)
  then show ?thesis
    using d by (simp add: Trim_def dropWhile_mid)
qed

lemma rtrim_keeps:
  "list_all (\<lambda>c. \<not> P c) ds \<Longrightarrow> \<exists>q. rev (dropWhile P (rev (ds @ B))) = ds @ q"
proof (cases ds rule: rev_cases)
  case Nil
  then show ?thesis by simp
next
  case (snoc ds0 d)
  assume "list_all (\<lambda>c. \<not> P c) ds"
  with snoc have "\<not> P d" by simp
  then have "dropWhile P (rev B @ d # rev ds0) = dropWhile P (rev B) @ d # rev ds0"
    by (rule dropWhile_mid)
  with snoc show ?thesis by simp
qed

lemma ReplaceAll_digits:
  "list_all isDigit ds \<Longrightarrow> ReplaceAll (ds @ q) ''--'' ''-'' = ds @ ReplaceAll q ''--'' ''-''"
  by (induction ds) (auto dest: isDigit_not_hyphen)

text \<open>A text that ends in a hyphen still does after the replacement.\<close>

lemma ReplaceAll_last_hyphen:
  "u \<noteq> [] \<Longrightarrow> last u = CHR ''-'' \<Longrightarrow> \<exists>p. ReplaceAll u ''--'' ''-'' = p @ ''-''"
proof (induction u "''--''" "''-''" rule: ReplaceAll.induct)
  case 1
  then show ?case by simp
next
  case (2 c cs)
  show ?case
  proof (cases "c = CHR ''-''")
    case False
    with 2 have cs: "cs \<noteq> []" "last cs = CHR ''-''" by (auto split: if_splits)
    from False have "\<not> (''--'' \<noteq> [] \<and> take (length ''--'') (c # cs) = ''--'')" by auto
    from 2(2)[OF this cs] obtain p where "ReplaceAll cs ''--'' ''-'' = p @ ''-''" by blast
    with False have "ReplaceAll (c # cs) ''--'' ''-'' = (c # p) @ ''-''" by simp
    then show ?thesis by blast
  next
    case c: True
    show ?thesis
    proof (cases cs)
      case Nil
      with c have "ReplaceAll (c # cs) ''--'' ''-'' = [] @ ''-''" by simp
      then show ?thesis by blast
    next
      case (Cons c' cs')
      show ?thesis
      proof (cases "c' = CHR ''-''")
        case True
        show ?thesis
        proof (cases cs')
          case Nil
          with c Cons True have "ReplaceAll (c # cs) ''--'' ''-'' = [] @ ''-''" by simp
          then show ?thesis by blast
        next
          case (Cons a list)
          with c \<open>cs = c' # cs'\<close> True 2(3,4)
          have r: "cs' \<noteq> []" "last cs' = CHR ''-''" by auto
          from c \<open>cs = c' # cs'\<close> True
          have "''--'' \<noteq> [] \<and> take (length ''--'') (c # cs) = ''--''" by simp
          from 2(1)[OF this] r c \<open>cs = c' # cs'\<close> True
          obtain p where "ReplaceAll cs' ''--'' ''-'' = p @ ''-''" by auto
          with c \<open>cs = c' # cs'\<close> True
          have "ReplaceAll (c # cs) ''--'' ''-'' = (CHR ''-'' # p) @ ''-''" by simp
          then show ?thesis by blast
        qed
      next
        case False
        with c Cons 2(3,4) have cs: "cs \<noteq> []" "last cs = CHR ''-''" by auto
        from c Cons False
        have "\<not> (''--'' \<noteq> [] \<and> take (length ''--'') (c # cs) = ''--'')" by auto
        from 2(2)[OF this cs] obtain p where "ReplaceAll cs ''--'' ''-'' = p @ ''-''" by blast
        then have "ReplaceAll (c # cs) ''--'' ''-'' = (c # p) @ ''-''"
          using c Cons False by simp
        then show ?thesis by blast
      qed
    qed
  qed
qed

text \<open>
  What becomes of a matrix suffix \<open>num\<close> that the loop appended after the element \<open>X\<close>,
  with further elements \<open>R\<close> behind it: it stands in the name, or the name starts with its
  digits (nothing but hyphens came before it, and the trim took its hyphen too).
\<close>

lemma suffix_in_name:
  assumes num: "num = CHR ''-'' # d # ds" "isDigit d" "list_all isDigit ds"
    and R: "R \<noteq> []"
  shows "sublist num (ReplaceAll (Trim (Join (before @ [X, num] @ R) ''-'') ''-'') ''--'' ''-'')
       \<or> prefix (tl num) (ReplaceAll (Trim (Join (before @ [X, num] @ R) ''-'') ''-'') ''--'' ''-'')"
proof -
  let ?h = "\<lambda>c. c \<in> set ''-''"
  let ?name = "ReplaceAll (Trim (Join (before @ [X, num] @ R) ''-'') ''-'') ''--'' ''-''"
  define A where "A = Join (before @ [X]) ''-'' @ ''--''"
  define B where "B = ds @ ''-'' @ Join R ''-''"
  have d: "d \<noteq> CHR ''-''" using num(2) by (rule isDigit_not_hyphen)
  have "before @ [X, num] @ R = (before @ [X]) @ ([num] @ R)" by simp
  then have "Join (before @ [X, num] @ R) ''-'' =
      Join (before @ [X]) ''-'' @ ''-'' @ Join ([num] @ R) ''-''"
    by (simp only: Join_append[of "before @ [X]" "[num] @ R"] append_is_Nil_conv
        not_Cons_self2 simp_thms)
  also have "Join ([num] @ R) ''-'' = num @ ''-'' @ Join R ''-''"
    using R by (cases R) auto
  finally have J: "Join (before @ [X, num] @ R) ''-'' = A @ d # B"
    by (simp add: A_def B_def num(1))
  have "list_all (\<lambda>c. \<not> ?h c) ds"
    using num(3) by (induction ds) (auto dest: isDigit_not_hyphen)
  from rtrim_keeps[OF this] obtain q where
    q: "rev (dropWhile ?h (rev B)) = ds @ q" unfolding B_def by blast
  have T: "Trim (A @ d # B) ''-'' = dropWhile ?h A @ d # ds @ q"
    using d q by (simp add: Trim_mid)
  have RA: "ReplaceAll (dropWhile ?h A @ d # ds @ q) ''--'' ''-'' =
      ReplaceAll (dropWhile ?h A) ''--'' ''-'' @ d # ds @ ReplaceAll q ''--'' ''-''"
    using d num(3) by (simp add: ReplaceAll_split ReplaceAll_digits)
  show ?thesis
  proof (cases "dropWhile ?h A = []")
    case True
    have "Trim (A @ d # B) ''-'' = d # ds @ q" using T unfolding True by simp
    moreover have "ReplaceAll (d # ds @ q) ''--'' ''-'' = d # ds @ ReplaceAll q ''--'' ''-''"
      using RA unfolding True by simp
    ultimately have "?name = tl num @ ReplaceAll q ''--'' ''-''"
      using J num(1) by simp
    then have "prefix (tl num) ?name" by simp
    then show ?thesis by blast
  next
    case False
    have "\<exists>u. dropWhile ?h A = u @ ''-''"
    proof (cases "\<forall>x\<in>set (Join (before @ [X]) ''-''). ?h x")
      case True
      then have "dropWhile ?h A = []" by (simp add: A_def)
      with False show ?thesis by simp
    next
      case False
      then obtain x where "x \<in> set (Join (before @ [X]) ''-'')" "\<not> ?h x" by blast
      then have "dropWhile ?h A = dropWhile ?h (Join (before @ [X]) ''-'') @ ''--''"
        unfolding A_def by (rule dropWhile_append1)
      then have "dropWhile ?h A = (dropWhile ?h (Join (before @ [X]) ''-'') @ ''-'') @ ''-''"
        by simp
      then show ?thesis by blast
    qed
    then obtain u where u: "dropWhile ?h A = u @ ''-''" by blast
    then have "last (dropWhile ?h A) = CHR ''-''" by simp
    from ReplaceAll_last_hyphen[OF False this] obtain p where
      "ReplaceAll (dropWhile ?h A) ''--'' ''-'' = p @ ''-''" by blast
    with J T RA num(1) have "?name = p @ num @ ReplaceAll q ''--'' ''-''" by simp
    then have "sublist num ?name" unfolding sublist_def by blast
    then show ?thesis by blast
  qed
qed

text \<open>
  C8 (the code departs from the claim). The claim: for every non-empty list of parts the
  name is a function of the parts, never contains two consecutive hyphens and never begins
  or ends with a hyphen. \<open>strings.ReplaceAll(s, "--", "-")\<close> makes one pass over
  non-overlapping pairs, so a run of three hyphens leaves two: the job \<open>a - b\<close> of the
  example gets a name with two consecutive hyphens.
\<close>

theorem createContainerName_three_hyphens:
  "createContainerName [''act'', ''a - b''] = Some ''act-a--b''"
  by (simp add: name_defs)

text \<open>The rest of C8 holds: a name that is not empty neither begins nor ends with a
  hyphen.\<close>

lemma rtrim_Cons:
  "\<not> P a \<Longrightarrow> rev (dropWhile P (rev (a # r))) = a # rev (dropWhile P (rev r))"
  using dropWhile_mid[of P a "rev r" "[]"] by simp

lemma rtrim_last:
  "rev (dropWhile P (rev r)) \<noteq> [] \<Longrightarrow> \<not> P (last (rev (dropWhile P (rev r))))"
proof -
  assume "rev (dropWhile P (rev r)) \<noteq> []"
  then have ne: "dropWhile P (rev r) \<noteq> []" by simp
  then have "\<not> P (hd (dropWhile P (rev r)))" by (rule hd_dropWhile)
  with ne show ?thesis by (simp add: last_rev)
qed

lemma Trim_ends:
  assumes ne: "Trim s cs \<noteq> []"
  shows "hd (Trim s cs) \<notin> set cs \<and> last (Trim s cs) \<notin> set cs"
proof (cases "dropWhile (\<lambda>c. c \<in> set cs) s")
  case Nil
  have "Trim s cs = rev (dropWhile (\<lambda>c. c \<in> set cs) (rev []))"
    unfolding Trim_def Nil ..
  then have "Trim s cs = []" by simp
  with ne show ?thesis by contradiction
next
  case (Cons a r)
  have a: "\<not> (\<lambda>c. c \<in> set cs) a"
    using hd_dropWhile[of "\<lambda>c. c \<in> set cs" s] unfolding Cons by simp
  have T: "Trim s cs = a # rev (dropWhile (\<lambda>c. c \<in> set cs) (rev r))"
    unfolding Trim_def Cons using a by (rule rtrim_Cons)
  show ?thesis
  proof (cases "rev (dropWhile (\<lambda>c. c \<in> set cs) (rev r)) = []")
    case True
    with T a show ?thesis by simp
  next
    case False
    from rtrim_last[OF False] T a False show ?thesis by simp
  qed
qed

lemma ReplaceAll_ends:
  assumes "s \<noteq> []" "hd s \<noteq> CHR ''-''" "last s \<noteq> CHR ''-''"
  shows "hd (ReplaceAll s ''--'' ''-'') \<noteq> CHR ''-'' \<and>
         last (ReplaceAll s ''--'' ''-'') \<noteq> CHR ''-''"
proof -
  obtain u d where s: "s = u @ [d]" using assms(1) by (cases s rule: rev_cases) blast+
  with assms(3) have d: "d \<noteq> CHR ''-''" by simp
  from ReplaceAll_split[OF d, of u "[]"] s
  have "ReplaceAll s ''--'' ''-'' = ReplaceAll u ''--'' ''-'' @ [d]" by simp
  then have l: "last (ReplaceAll s ''--'' ''-'') = d" by simp
  obtain a r where ar: "s = a # r" using assms(1) by (cases s) blast+
  with assms(2) have a: "a \<noteq> CHR ''-''" by simp
  with ar have "ReplaceAll s ''--'' ''-'' = a # ReplaceAll r ''--'' ''-''" by simp
  then have h: "hd (ReplaceAll s ''--'' ''-'') = a" by simp
  from l h a d show ?thesis by simp
qed

lemma createContainerName_no_boundary_hyphen:
  assumes "createContainerName parts = Some name" "name \<noteq> []"
  shows "hd name \<noteq> CHR ''-'' \<and> last name \<noteq> CHR ''-''"
proof -
  obtain t where n: "name = ReplaceAll (Trim t ''-'') ''--'' ''-''"
    using assms(1) by (auto simp: createContainerName_def Let_def split: if_splits)
  have ne: "Trim t ''-'' \<noteq> []"
  proof
    assume "Trim t ''-'' = []"
    with n have "name = []" by simp
    with assms(2) show False by contradiction
  qed
  from Trim_ends[OF ne] have "hd (Trim t ''-'') \<noteq> CHR ''-''" "last (Trim t ''-'') \<noteq> CHR ''-''"
    by simp_all
  from ReplaceAll_ends[OF ne this] n show ?thesis by simp
qed

text \<open>The loop of \<open>createContainerName\<close>, part by part.\<close>

lemma nameElems_butlast:
  "parts \<noteq> [] \<Longrightarrow>
   nameElems L parts = concat (map (partElems L) (butlast parts)) @ [sanitize (last parts)]"
  by (induction L parts rule: nameElems.induct) simp_all

lemma partElems_take:
  "partElems L p =
     (case FindStringSubmatch p of
        None \<Rightarrow> [take (nat L) (sanitize p)]
      | Some num \<Rightarrow> [take (nat (L - int (length num))) (sanitize p), num])"
  by (simp add: partElems_def trimToLen_take split: option.splits)

lemma ReplaceAll_length: "length (ReplaceAll s ''--'' ''-'') \<le> length s"
proof (induction s "''--''" "''-''" rule: ReplaceAll.induct)
  case 1
  then show ?case by simp
next
  case (2 c cs)
  note eq = ReplaceAll.simps(2)[of c cs "''--''" "''-''"]
  show ?case
  proof (cases "''--'' \<noteq> [] \<and> take (length ''--'') (c # cs) = ''--''")
    case True
    from 2(1)[OF True]
    have IH: "length (ReplaceAll (drop (length ''--'') (c # cs)) ''--'' ''-'')
        \<le> length (drop (length ''--'') (c # cs))" .
    have "ReplaceAll (c # cs) ''--'' ''-'' =
        ''-'' @ ReplaceAll (drop (length ''--'') (c # cs)) ''--'' ''-''"
      unfolding eq by (rule if_P[OF True])
    then have "length (ReplaceAll (c # cs) ''--'' ''-'') =
        1 + length (ReplaceAll (drop (length ''--'') (c # cs)) ''--'' ''-'')"
      by simp
    also have "\<dots> \<le> 1 + length (drop (length ''--'') (c # cs))" using IH by simp
    also have "\<dots> \<le> length (c # cs)" by simp
    finally show ?thesis .
  next
    case False
    from 2(2)[OF False] have IH: "length (ReplaceAll cs ''--'' ''-'') \<le> length cs" .
    have "ReplaceAll (c # cs) ''--'' ''-'' = c # ReplaceAll cs ''--'' ''-''"
      unfolding eq by (rule if_not_P[OF False])
    then show ?thesis using IH by simp
  qed
qed

lemma Trim_length: "length (Trim s cs) \<le> length s"
proof -
  have "length (Trim s cs) \<le> length (dropWhile (\<lambda>c. c \<in> set cs) s)"
    unfolding Trim_def using length_dropWhile_le[of "\<lambda>c. c \<in> set cs" "rev (dropWhile (\<lambda>c. c \<in> set cs) s)"]
    by simp
  also have "\<dots> \<le> length s" by (rule length_dropWhile_le)
  finally show ?thesis .
qed

lemma Join_length:
  "es \<noteq> [] \<Longrightarrow> length (Join es sep) + length sep = sum_list (map length es) + length es * length sep"
  by (induction es sep rule: Join.induct) simp_all

lemma budget_sum:
  "sum_list (map length (concat (map (\<lambda>p. [take m (f p)]) ps))) \<le> length ps * m"
  by (induction ps) simp_all

text \<open>Without matrix suffixes, the budget bounds the length of the name.\<close>

lemma createContainerName_length:
  assumes ne: "parts \<noteq> []" and le: "length parts \<le> 30"
    and ns: "\<forall>p \<in> set (butlast parts). FindStringSubmatch p = None"
  shows "\<exists>name. createContainerName parts = Some name \<and>
     length name \<le> (length parts - 1) * (30 div length parts) + length (last parts)"
proof -
  let ?n = "length parts"
  let ?L = "30 div int ?n - 1"
  let ?els = "nameElems ?L parts"
  have n0: "0 < ?n" using ne by simp
  have d: "30 div int ?n = int (30 div ?n)" by (simp add: zdiv_int)
  have "1 \<le> 30 div ?n" using le n0 by (simp add: Suc_le_eq div_greater_zero_iff)
  with d have m: "nat ?L + 1 = 30 div ?n" by simp
  have pe: "map (partElems ?L) (butlast parts) = map (\<lambda>p. [take (nat ?L) (sanitize p)]) (butlast parts)"
    using ns by (simp add: partElems_take)
  have els: "?els = concat (map (\<lambda>p. [take (nat ?L) (sanitize p)]) (butlast parts)) @ [sanitize (last parts)]"
    unfolding nameElems_butlast[OF ne] pe ..
  have len: "length ?els = ?n" unfolding els using ne by (simp add: length_concat o_def sum_list_triv)
  have "sum_list (map length ?els) \<le> (?n - 1) * nat ?L + length (last parts)"
    unfolding els using budget_sum[of "nat ?L" sanitize "butlast parts"] sanitize_length[of "last parts"]
    by simp
  moreover have "length (Join ?els ''-'') + 1 = sum_list (map length ?els) + ?n"
    using Join_length[of ?els "''-''"] nameElems_nonempty[OF ne, of ?L] len by simp
  ultimately have "length (Join ?els ''-'') \<le> (?n - 1) * nat ?L + (?n - 1) + length (last parts)"
    by linarith
  also have "(?n - 1) * nat ?L + (?n - 1) = (?n - 1) * (nat ?L + 1)" by simp
  finally have j: "length (Join ?els ''-'') \<le> (?n - 1) * (30 div ?n) + length (last parts)"
    unfolding m .
  have "length (ReplaceAll (Trim (Join ?els ''-'') ''-'') ''--'' ''-'') \<le> length (Join ?els ''-'')"
    using ReplaceAll_length[of "Trim (Join ?els ''-'') ''-''"] Trim_length[of "Join ?els ''-''" "''-''"]
    by linarith
  with j have "length (ReplaceAll (Trim (Join ?els ''-'') ''-'') ''--'' ''-'')
      \<le> (?n - 1) * (30 div ?n) + length (last parts)" by linarith
  moreover have "createContainerName parts =
      Some (ReplaceAll (Trim (Join ?els ''-'') ''-'') ''--'' ''-'')"
    using ne by (simp add: createContainerName_def Let_def)
  ultimately show ?thesis by blast
qed

text \<open>
  C9 (amended). With \<open>partLen = 30 / partCount - 1\<close> (the integer quotient), the name is
  made of these elements, joined with hyphens, the hyphens at both ends trimmed off and
  then each pair of hyphens replaced by one, in one pass: for every part but the last, its
  sanitized text cut to \<open>partLen\<close> bytes (to none when \<open>partLen\<close> is negative) when it
  has no matrix suffix, and when it ends in a matrix suffix \<open>num\<close> its whole sanitized
  text, the suffix included, cut to \<open>partLen - len(num)\<close> bytes and then \<open>num\<close> itself,
  whole, as an element of its own; for the last part its sanitized text, uncut. The suffix
  of a part that is not the last stands in the name as it is, except that when nothing but
  hyphens comes before it the trim takes its hyphen too, and the name starts with its
  digits. With at most 30 parts, none but the last with a matrix suffix, the budget bounds
  the name: each part but the last takes at most \<open>30 / partCount\<close> bytes of it, its
  hyphen included.
\<close>

theorem createContainerName_budget_and_suffix:
  assumes "parts \<noteq> []"
  shows "createContainerName parts =
     Some (ReplaceAll (Trim (Join
       (concat (map (\<lambda>p. case FindStringSubmatch p of
                        None \<Rightarrow> [take (nat (30 div int (length parts) - 1)) (sanitize p)]
                      | Some num \<Rightarrow>
                          [take (nat (30 div int (length parts) - 1 - int (length num)))
                             (sanitize p), num])
                 (butlast parts))
        @ [sanitize (last parts)]) ''-'') ''-'') ''--'' ''-'') \<and>
     (p \<in> set (butlast parts) \<and> FindStringSubmatch p = Some num \<longrightarrow>
        (\<exists>name. createContainerName parts = Some name \<and>
           (sublist num name \<or> prefix (tl num) name))) \<and>
     (length parts \<le> 30 \<and> (\<forall>q \<in> set (butlast parts). FindStringSubmatch q = None) \<longrightarrow>
        (\<exists>name. createContainerName parts = Some name \<and>
           length name \<le> (length parts - 1) * (30 div length parts) + length (last parts)))"
proof -
  let ?L = "30 div int (length parts) - 1"
  let ?name = "ReplaceAll (Trim (Join (nameElems ?L parts) ''-'') ''-'') ''--'' ''-''"
  have c: "createContainerName parts = Some ?name"
    using assms by (simp add: createContainerName_def Let_def)
  have e: "nameElems ?L parts =
      concat (map (\<lambda>p. case FindStringSubmatch p of
                        None \<Rightarrow> [take (nat ?L) (sanitize p)]
                      | Some num \<Rightarrow> [take (nat (?L - int (length num))) (sanitize p), num])
                 (butlast parts))
        @ [sanitize (last parts)]"
    unfolding nameElems_butlast[OF assms] partElems_take ..
  have first: "createContainerName parts =
     Some (ReplaceAll (Trim (Join
       (concat (map (\<lambda>p. case FindStringSubmatch p of
                        None \<Rightarrow> [take (nat ?L) (sanitize p)]
                      | Some num \<Rightarrow> [take (nat (?L - int (length num))) (sanitize p), num])
                 (butlast parts))
        @ [sanitize (last parts)]) ''-'') ''-'') ''--'' ''-'')"
    unfolding c e ..
  have second: "\<exists>name. createContainerName parts = Some name \<and>
           (sublist num name \<or> prefix (tl num) name)"
    if p: "p \<in> set (butlast parts)" and f: "FindStringSubmatch p = Some num"
  proof -
    from p obtain pre mid where b: "butlast parts = pre @ p # mid"
      by (auto simp: in_set_conv_decomp)
    have "parts = butlast parts @ [last parts]" using assms by simp
    then have parts: "parts = pre @ p # (mid @ [last parts])" unfolding b by simp
    have rest: "mid @ [last parts] \<noteq> []" by simp
    have el: "nameElems ?L parts =
        concat (map (partElems ?L) pre) @ partElems ?L p @ nameElems ?L (mid @ [last parts])"
      using nameElems_append[OF rest, of ?L pre p] parts by simp
    have R: "nameElems ?L (mid @ [last parts]) \<noteq> []" using rest by (rule nameElems_nonempty)
    from FindStringSubmatch_Some[OF f] obtain d ds where
      num: "num = CHR ''-'' # d # ds" "isDigit d" "list_all isDigit ds" by blast
    have pe: "partElems ?L p = [take (nat (?L - int (length num))) (sanitize p), num]"
      using f by (simp add: partElems_take)
    from suffix_in_name[OF num R, of "concat (map (partElems ?L) pre)"
        "take (nat (?L - int (length num))) (sanitize p)"]
    have "sublist num ?name \<or> prefix (tl num) ?name"
      using el pe by simp
    with c show ?thesis by blast
  qed
  have third: "\<exists>name. createContainerName parts = Some name \<and>
           length name \<le> (length parts - 1) * (30 div length parts) + length (last parts)"
    if "length parts \<le> 30" "\<forall>q \<in> set (butlast parts). FindStringSubmatch q = None"
    using assms that by (rule createContainerName_length)
  from first second third show ?thesis by blast
qed

text \<open>The theorem at the parts \<open>act\<close>, \<open>build-3\<close>, \<open>tests\<close>: \<open>partLen\<close> is \<open>30/3 - 1 = 9\<close>,
  the part with the suffix is cut to \<open>9 - 2 = 7\<close> bytes, which is all of it, its suffix
  follows, and \<open>-3\<close> stands in the name.\<close>

theorem createContainerName_budget_and_suffix_witness:
  "[''act'', ''build-3'', ''tests''] \<noteq> [] \<and>
   ''build-3'' \<in> set (butlast [''act'', ''build-3'', ''tests'']) \<and>
   FindStringSubmatch ''build-3'' = Some ''-3'' \<and>
   createContainerName [''act'', ''build-3'', ''tests''] =
     Some (ReplaceAll (Trim (Join [''act'', ''build-3'', ''-3'', ''tests''] ''-'') ''-'') ''--'' ''-'') \<and>
   createContainerName [''act'', ''build-3'', ''tests''] = Some ''act-build-3-3-tests'' \<and>
   sublist ''-3'' ''act-build-3-3-tests'' \<and>
   [''0123456789abcdefghij'', ''CI/build''] \<noteq> [] \<and>
   length [''0123456789abcdefghij'', ''CI/build''] \<le> 30 \<and>
   FindStringSubmatch ''0123456789abcdefghij'' = None \<and>
   createContainerName [''0123456789abcdefghij'', ''CI/build''] = Some ''0123456789abcd-CI-build'' \<and>
   length ''0123456789abcd-CI-build'' \<le> (2 - 1) * (30 div 2) + length ''CI/build''"
proof -
  have ne: "[''act'', ''build-3'', ''tests''] \<noteq> []" by simp
  have m: "''build-3'' \<in> set (butlast [''act'', ''build-3'', ''tests''])" by simp
  have f: "FindStringSubmatch ''build-3'' = Some ''-3''" "FindStringSubmatch ''act'' = None"
    by (simp_all add: isDigit_def)
  have sa: "sanitize ''act'' = ''act''" "sanitize ''build-3'' = ''build-3''"
    "sanitize ''tests'' = ''tests''"
    by (simp_all add: sanitize_defs)
  note t = createContainerName_budget_and_suffix[OF ne, of "''build-3''" "''-3''"]
  have els: "concat (map (\<lambda>p. case FindStringSubmatch p of
                        None \<Rightarrow> [take (nat (30 div int (length [''act'', ''build-3'', ''tests'']) - 1)) (sanitize p)]
                      | Some num \<Rightarrow>
                          [take (nat (30 div int (length [''act'', ''build-3'', ''tests'']) - 1 - int (length num)))
                             (sanitize p), num])
                 (butlast [''act'', ''build-3'', ''tests'']))
        @ [sanitize (last [''act'', ''build-3'', ''tests''])] = [''act'', ''build-3'', ''-3'', ''tests'']"
    by (simp add: sa isDigit_def)
  have e: "createContainerName [''act'', ''build-3'', ''tests''] =
     Some (ReplaceAll (Trim (Join [''act'', ''build-3'', ''-3'', ''tests''] ''-'') ''-'') ''--'' ''-'')"
    using t[THEN conjunct1] unfolding els .
  have r: "ReplaceAll (Trim (Join [''act'', ''build-3'', ''-3'', ''tests''] ''-'') ''-'') ''--'' ''-''
      = ''act-build-3-3-tests''"
    by (simp add: Trim_def)
  have n: "createContainerName [''act'', ''build-3'', ''tests''] = Some ''act-build-3-3-tests''"
    using e unfolding r .
  from t[THEN conjunct2] m f(1) obtain name where
    nm: "createContainerName [''act'', ''build-3'', ''tests''] = Some name"
      "sublist ''-3'' name \<or> prefix (tl ''-3'') name"
    by blast
  from nm(1) n have "name = ''act-build-3-3-tests''" by simp
  with nm(2) have "sublist ''-3'' ''act-build-3-3-tests'' \<or> prefix ''3'' ''act-build-3-3-tests''"
    by simp
  moreover have "\<not> prefix ''3'' ''act-build-3-3-tests''" by simp
  ultimately have su: "sublist ''-3'' ''act-build-3-3-tests''" by blast
  have ne2: "[''0123456789abcdefghij'', ''CI/build''] \<noteq> []" by simp
  have le2: "length [''0123456789abcdefghij'', ''CI/build''] \<le> 30" by simp
  have f2: "FindStringSubmatch ''0123456789abcdefghij'' = None" by (simp add: isDigit_def)
  then have all2: "\<forall>q \<in> set (butlast [''0123456789abcdefghij'', ''CI/build'']).
      FindStringSubmatch q = None" by simp
  have n2: "createContainerName [''0123456789abcdefghij'', ''CI/build''] = Some ''0123456789abcd-CI-build''"
    by (simp add: name_defs)
  from createContainerName_budget_and_suffix[OF ne2, of "[]" "[]", THEN conjunct2, THEN conjunct2]
    le2 all2
  obtain name2 where nm2: "createContainerName [''0123456789abcdefghij'', ''CI/build''] = Some name2"
    "length name2 \<le> (length [''0123456789abcdefghij'', ''CI/build''] - 1) *
       (30 div length [''0123456789abcdefghij'', ''CI/build''])
       + length (last [''0123456789abcdefghij'', ''CI/build''])"
    by blast
  from nm2(1) n2 have "name2 = ''0123456789abcd-CI-build''" by simp
  with nm2(2) have b2: "length ''0123456789abcd-CI-build'' \<le> (2 - 1) * (30 div 2) + length ''CI/build''"
    by simp
  from ne m f(1) e n su ne2 le2 f2 n2 b2 show ?thesis by (intro conjI)
qed

text \<open>
  C9 as stated fails twice. Where the budget leaves nothing of the part in front of its
  suffix, the suffix does not stand in the name as it is: of \<open>-1234567890123\<close> the name
  has the digits, and not the hyphen. And it is not the remainder of the part that is cut
  and followed by the suffix, but the whole part: \<open>build-3\<close> with a budget of 14 gives
  \<open>build-3-3\<close>, where its remainder \<open>build\<close> and its suffix would give \<open>build-3\<close>.
\<close>

theorem createContainerName_suffix_counterexample:
  "FindStringSubmatch ''a-1234567890123'' = Some ''-1234567890123'' \<and>
   createContainerName [''a-1234567890123'', ''b''] = Some ''1234567890123-b'' \<and>
   \<not> sublist ''-1234567890123'' ''1234567890123-b'' \<and>
   FindStringSubmatch ''build-3'' = Some ''-3'' \<and>
   createContainerName [''build-3'', ''x''] = Some ''build-3-3-x'' \<and>
   createContainerName [''build-3'', ''x''] \<noteq> Some ''build-3-x''"
proof -
  have f: "FindStringSubmatch ''a-1234567890123'' = Some ''-1234567890123''"
    "FindStringSubmatch ''build-3'' = Some ''-3''"
    by (simp_all add: isDigit_def)
  have n: "createContainerName [''a-1234567890123'', ''b''] = Some ''1234567890123-b''"
    by (simp add: name_defs)
  have s: "\<not> sublist ''-1234567890123'' ''1234567890123-b''"
    by (simp add: sublist_Cons_right)
  have m: "createContainerName [''build-3'', ''x''] = Some ''build-3-3-x''"
    by (simp add: name_defs)
  then have d: "createContainerName [''build-3'', ''x''] \<noteq> Some ''build-3-x''" by simp
  from f n s m d show ?thesis by blast
qed

section \<open>Properties of the job status\<close>

lemma jobStatusLoop_eq:
  "jobStatusLoop xs st =
     (if \<exists>r \<in> snd ` set xs. Conclusion r = StepStatusFailure then ''failure'' else st)"
  by (induction xs st rule: jobStatusLoop.induct) auto

text \<open>
  C10. \<open>getJobContext\<close> reports \<open>failure\<close> if and only if some recorded step result has the
  conclusion Failure, and \<open>success\<close> otherwise; the outcomes do not enter: whatever they
  are changed to, the status is the same. So a step that failed and whose conclusion
  continue-on-error set to Success does not make the status \<open>failure\<close>.
\<close>

theorem getJobContext_status:
  "Status (getJobContext rc) =
     (if \<exists>r \<in> snd ` set (StepResults rc). Conclusion r = StepStatusFailure
      then ''failure'' else ''success'') \<and>
   getJobContext (rc\<lparr>StepResults := map (\<lambda>(k, r). (k, r\<lparr>Outcome := f k r\<rparr>)) (StepResults rc)\<rparr>)
     = getJobContext rc"
proof -
  have "(\<exists>r \<in> snd ` set (map (\<lambda>(k, r). (k, r\<lparr>Outcome := f k r\<rparr>)) (StepResults rc)).
           Conclusion r = StepStatusFailure) =
        (\<exists>r \<in> snd ` set (StepResults rc). Conclusion r = StepStatusFailure)"
    by (force simp: image_iff)
  then show ?thesis
    by (simp add: getJobContext_def jobStatusLoop_eq)
qed

section \<open>Properties of the environment\<close>

lemma mergeMaps3: "mergeMaps [a, b, c] = a ++ b ++ c"
  by (simp add: mergeMaps_def)

text \<open>
  C6. On a run context whose environment is not yet computed, \<open>GetEnv\<close> returns the global
  environment overridden by the workflow's, overridden by the job's, with \<open>ACT\<close> set to
  \<open>true\<close> on top: for every key but the marker the job's value wins over the workflow's,
  which wins over the global one. The marker is in every result. The result is stored, and
  a further call returns the same mapping and leaves the same run context, whatever the
  three layers have become in between.
\<close>

theorem GetEnv_layers:
  "fst (GetEnv (rc\<lparr>RunContext.Env := None\<rparr>)) =
     (Config.Env (Config rc) ++ Workflow_Env rc ++ Job_Environment rc)(''ACT'' \<mapsto> ''true'') \<and>
   (k \<noteq> ''ACT'' \<longrightarrow>
      fst (GetEnv (rc\<lparr>RunContext.Env := None\<rparr>)) k =
        (case Job_Environment rc k of
           Some v \<Rightarrow> Some v
         | None \<Rightarrow> (case Workflow_Env rc k of
                      Some v \<Rightarrow> Some v
                    | None \<Rightarrow> Config.Env (Config rc) k))) \<and>
   fst (GetEnv rc) ''ACT'' = Some ''true'' \<and>
   RunContext.Env (snd (GetEnv rc)) = Some (fst (GetEnv rc)) \<and>
   GetEnv (snd (GetEnv rc)) = GetEnv rc \<and>
   fst (GetEnv ((snd (GetEnv rc))\<lparr>Config := cfg', Workflow_Env := wenv', Job_Environment := jenv'\<rparr>))
     = fst (GetEnv rc)"
  by (auto simp: GetEnv_def Let_def mergeMaps3 map_add_def split: option.splits)

text \<open>The example of the specification: workflow \<open>{A: 1}\<close>, job \<open>{A: 2, B: 3}\<close>.\<close>

theorem GetEnv_layers_witness:
  "''A'' \<noteq> ''ACT'' \<and> ''B'' \<noteq> ''ACT'' \<and>
   fst (GetEnv rc0) ''A'' = Some ''2'' \<and> fst (GetEnv rc0) ''B'' = Some ''3'' \<and>
   fst (GetEnv rc0) ''ACT'' = Some ''true'' \<and>
   fst (GetEnv rc0) = [''A'' \<mapsto> ''2'', ''B'' \<mapsto> ''3'', ''ACT'' \<mapsto> ''true'']"
  using GetEnv_layers[of rc0 "''A''"] GetEnv_layers[of rc0 "''B''"]
  by (auto simp: rc0_def GetEnv_def Let_def mergeMaps3 map_add_def fun_eq_iff)

section \<open>Properties of a step's execution\<close>

text \<open>The current step's result.\<close>

lemma updStepResult_frame [simp]:
  "CurrentStep (RC (updStepResult f s)) = CurrentStep (RC s)"
  "world (updStepResult f s) = world s"
  "JobContainer (RC (updStepResult f s)) = JobContainer (RC s)"
  "jobErrors (updStepResult f s) = jobErrors s"
  "logs (updStepResult f s) = logs s"
  by (simp_all add: updStepResult_def)

lemma updStepResult_lookup:
  "map_of (StepResults (RC (updStepResult f s))) k =
     (if k = CurrentStep (RC s) then map_option f (map_of (StepResults (RC s)) k)
      else map_of (StepResults (RC s)) k)"
  by (simp add: updStepResult_def map_of_map_entry split: option.splits)

lemma beginStep_frame [simp]:
  "CurrentStep (RC (beginStep sc s)) = ID (Step sc)"
  "world (beginStep sc s) = world s"
  "JobContainer (RC (beginStep sc s)) = JobContainer (RC s)"
  "actPath (RC (beginStep sc s)) = actPath (RC s)"
  "jobErrors (beginStep sc s) = jobErrors s"
  by (simp_all add: beginStep_def Let_def)

lemma beginStep_lookup:
  "map_of (StepResults (RC (beginStep sc s))) k =
     (if k = ID (Step sc)
      then Some \<lparr>Outputs = Map.empty, Conclusion = StepStatusSuccess, Outcome = StepStatusSuccess\<rparr>
      else map_of (StepResults (RC s)) k)"
  by (simp add: beginStep_def Let_def update_conv')

lemma setOutput_frame [simp]:
  "CurrentStep (RC (setOutput ctx k v s)) = CurrentStep (RC s)"
  "world (setOutput ctx k v s) = world s"
  "jobErrors (setOutput ctx k v s) = jobErrors s"
  by (simp_all add: setOutput_def)

lemma publish_frame:
  "CurrentStep (RC (foldl (\<lambda>s (k, v). setOutput ctx k v s) s out)) = CurrentStep (RC s) \<and>
   world (foldl (\<lambda>s (k, v). setOutput ctx k v s) s out) = world s \<and>
   jobErrors (foldl (\<lambda>s (k, v). setOutput ctx k v s) s out) = jobErrors s"
  by (induction out arbitrary: s) (auto simp: case_prod_beta)

lemma setOutput_lookup:
  "map_of (StepResults (RC (setOutput ctx k v s))) j =
     (if j = CurrentStep (RC s)
      then map_option (\<lambda>r. r\<lparr>Outputs := (Outputs r)(k \<mapsto> v)\<rparr>) (map_of (StepResults (RC s)) j)
      else map_of (StepResults (RC s)) j)"
  by (simp add: setOutput_def updStepResult_lookup)

lemma map_add_upd_rev:
  "(m(k \<mapsto> v)) ++ map_of (rev out) = m ++ map_of (rev ((k, v) # out))"
proof
  fix x
  show "((m(k \<mapsto> v)) ++ map_of (rev out)) x = (m ++ map_of (rev ((k, v) # out))) x"
    by (cases "map_of (rev out) x") (simp_all add: map_add_def)
qed

lemma publish_lookup:
  "map_of (StepResults (RC (foldl (\<lambda>s (k, v). setOutput ctx k v s) s out))) j =
     (if j = CurrentStep (RC s)
      then map_option (\<lambda>r. r\<lparr>Outputs := Outputs r ++ map_of (rev out)\<rparr>)
             (map_of (StepResults (RC s)) j)
      else map_of (StepResults (RC s)) j)"
proof (induction out arbitrary: s)
  case Nil
  then show ?case by (simp add: option.map_ident)
next
  case (Cons kv out)
  obtain k v where kv: "kv = (k, v)" by (cases kv)
  let ?F = "\<lambda>s (k, v). setOutput ctx k v s"
  let ?s' = "setOutput ctx k v s"
  have f: "foldl ?F s (kv # out) = foldl ?F ?s' out"
    by (simp add: kv)
  have IH: "map_of (StepResults (RC (foldl ?F ?s' out))) j =
     (if j = CurrentStep (RC s)
      then map_option (\<lambda>r. r\<lparr>Outputs := Outputs r ++ map_of (rev out)\<rparr>)
             (map_of (StepResults (RC ?s')) j)
      else map_of (StepResults (RC ?s')) j)"
    using Cons.IH[of ?s'] by simp
  have L: "map_of (StepResults (RC ?s')) j =
     (if j = CurrentStep (RC s)
      then map_option (\<lambda>r. r\<lparr>Outputs := (Outputs r)(k \<mapsto> v)\<rparr>) (map_of (StepResults (RC s)) j)
      else map_of (StepResults (RC s)) j)"
    by (rule setOutput_lookup)
  show ?case
  proof (cases "j = CurrentStep (RC s)")
    case False
    with IH L show ?thesis unfolding f by simp
  next
    case True
    show ?thesis
    proof (cases "map_of (StepResults (RC s)) j")
      case None
      with IH L True show ?thesis unfolding f by simp
    next
      case (Some r)
      with IH L True
      have "map_of (StepResults (RC (foldl ?F ?s' out))) j =
          Some (r\<lparr>Outputs := (Outputs r)(k \<mapsto> v) ++ map_of (rev out)\<rparr>)"
        by simp
      also have "(Outputs r)(k \<mapsto> v) ++ map_of (rev out) = Outputs r ++ map_of (rev (kv # out))"
        unfolding kv by (rule map_add_upd_rev)
      finally have "map_of (StepResults (RC (foldl ?F s (kv # out)))) j =
          Some (r\<lparr>Outputs := Outputs r ++ map_of (rev (kv # out))\<rparr>)"
        unfolding f .
      with True Some show ?thesis by (simp only: if_True option.map refl simp_thms)
    qed
  qed
qed

lemma map_of_rev_distinct:
  "distinct (map fst xs) \<Longrightarrow> map_of (rev xs) = map_of xs"
proof (induction xs)
  case Nil
  then show ?case by simp
next
  case (Cons x xs)
  obtain k v where x: "x = (k, v)" by (cases x)
  from Cons.prems x have k: "map_of xs k = None" "map_of (rev xs) k = None"
    by (auto simp: map_of_eq_None_iff)
  from Cons have IH: "map_of (rev xs) = map_of xs" by simp
  show ?case
  proof
    fix j
    show "map_of (rev (x # xs)) j = map_of (x # xs) j"
      using k IH by (cases "j = k") (simp_all add: x map_add_def split: option.splits)
  qed
qed

lemma output_map:
  "distinct (map fst acc) \<Longrightarrow>
   distinct (map fst (foldl (\<lambda>m (k, v). AList.update k v m) acc writes)) \<and>
   map_of (foldl (\<lambda>m (k, v). AList.update k v m) acc writes) = map_of acc ++ map_of (rev writes)"
proof (induction writes arbitrary: acc)
  case Nil
  then show ?case by simp
next
  case (Cons kv writes)
  obtain k v where kv: "kv = (k, v)" by (cases kv)
  have d: "distinct (map fst (AList.update k v acc))"
    using Cons.prems by (rule distinct_update)
  have "map_of (AList.update k v acc) ++ map_of (rev writes) =
        map_of acc ++ map_of (rev (kv # writes))"
    unfolding kv update_conv' by (rule map_add_upd_rev)
  with Cons.IH[OF d] show ?case by (simp add: kv)
qed

lemma GetActPath_frame [simp]:
  "GetActPath (RC (beginStep sc s)) = GetActPath (RC s)"
  "GetActPath (rc\<lparr>ExprEval := e\<rparr>) = GetActPath rc"
  by (simp_all add: GetActPath_def)

text \<open>The file that is read back, under the default act path and under one that is not
  clean.\<close>

lemma path_Join_outputFileCommand:
  "outputFileCommand = ''workflow/outputcmd.txt''"
  "path_Join [''/var/run/act'', outputFileCommand] = ''/var/run/act/workflow/outputcmd.txt''"
  "path_Join [''/tmp/act//'', outputFileCommand] = ''/tmp/act/workflow/outputcmd.txt''"
  "path_Join [''/tmp/x/../act'', outputFileCommand] = ''/tmp/act/workflow/outputcmd.txt''"
  by (simp_all add: outputFileCommand_def path_Join_def Clean_def cleanElement_def)

text \<open>The end of \<open>newStepExecutor\<close>, by the result of reading the output file.\<close>

lemma processRunnerFileCommands_result:
  assumes "UpdateFromEnv c file ctx (world s) = ((uerr, writes), w)"
  shows "\<exists>s'. processRunnerFileCommands c orgerr file ctx s =
           (case uerr of Some ue \<Rightarrow> Some ue | None \<Rightarrow> orgerr, s') \<and>
         world s' = w \<and> CurrentStep (RC s') = CurrentStep (RC s) \<and>
         jobErrors s' = jobErrors s \<and>
         (\<forall>j. map_of (StepResults (RC s')) j =
            (if j = CurrentStep (RC s) \<and> uerr = None
             then map_option (\<lambda>r. r\<lparr>Outputs := Outputs r ++ map_of (rev writes)\<rparr>)
                    (map_of (StepResults (RC s)) j)
             else map_of (StepResults (RC s)) j))"
proof (cases uerr)
  case (Some ue)
  with assms show ?thesis by (simp add: processRunnerFileCommands_def)
next
  case None
  let ?out = "foldl (\<lambda>m (k, v). AList.update k v m) [] writes"
  let ?s' = "foldl (\<lambda>s (k, v). setOutput ctx k v s) (s\<lparr>world := w\<rparr>) ?out"
  from output_map[of "[]" writes]
  have o: "distinct (map fst ?out)" "map_of ?out = map_of (rev writes)" by simp_all
  then have r: "map_of (rev ?out) = map_of (rev writes)" by (simp add: map_of_rev_distinct)
  have p: "processRunnerFileCommands c orgerr file ctx s = (orgerr, ?s')"
    using assms None by (simp add: processRunnerFileCommands_def Let_def)
  have "world ?s' = w" "CurrentStep (RC ?s') = CurrentStep (RC s)" "jobErrors ?s' = jobErrors s"
    using publish_frame[of ctx "s\<lparr>world := w\<rparr>" ?out] by simp_all
  moreover have "\<forall>j. map_of (StepResults (RC ?s')) j =
            (if j = CurrentStep (RC s) \<and> uerr = None
             then map_option (\<lambda>r. r\<lparr>Outputs := Outputs r ++ map_of (rev writes)\<rparr>)
                    (map_of (StepResults (RC s)) j)
             else map_of (StepResults (RC s)) j)"
    using None by (simp add: publish_lookup r)
  ultimately show ?thesis using p None by simp
qed

text \<open>A step that is enabled and set up: its body runs, and the output file is read.\<close>

lemma newStepExecutor_run:
  assumes c: "JobContainer (RC s) = Some c"
    and en: "isEnabled sc ctx (beginStep sc s) = Inr True"
    and se: "setupEnv sc ctx (world s) = (Inr (exprEval, env), w1)"
    and cp: "Copy c (GetActPath (RC s)) fileCommandEntries ctx w1 = (copyerr, w2)"
    and ex: "StepContext.Executor sc (fileCommandEnv (GetActPath (RC s)) env) ctx w2 = (berr, w3)"
    and up: "UpdateFromEnv c (path_Join [GetActPath (RC s), outputFileCommand]) ctx w3
               = ((uerr, writes), w4)"
  shows "\<exists>s'. newStepExecutor sc ctx s =
           (case uerr of
              Some ue \<Rightarrow> Some ue
            | None \<Rightarrow> (case berr of
                         None \<Rightarrow> None
                       | Some e \<Rightarrow> if ContinueOnError (Step sc) then None else Some e), s') \<and>
         world s' = w4 \<and> CurrentStep (RC s') = ID (Step sc) \<and> jobErrors s' = jobErrors s \<and>
         map_of (StepResults (RC s')) (ID (Step sc)) =
           Some \<lparr>Outputs = (case uerr of None \<Rightarrow> map_of (rev writes) | Some ue \<Rightarrow> Map.empty),
                 Conclusion = (case berr of
                                 None \<Rightarrow> StepStatusSuccess
                               | Some e \<Rightarrow> if ContinueOnError (Step sc) then StepStatusSuccess
                                           else StepStatusFailure),
                 Outcome = (case berr of None \<Rightarrow> StepStatusSuccess
                                       | Some e \<Rightarrow> StepStatusFailure)\<rparr> \<and>
         (\<forall>j. j \<noteq> ID (Step sc) \<longrightarrow>
              map_of (StepResults (RC s')) j = map_of (StepResults (RC s)) j)"
proof -
  let ?file = "path_Join [GetActPath (RC s), outputFileCommand]"
  let ?s1 = "(beginStep sc s)\<lparr>world := w1\<rparr>"
  let ?s2 = "?s1\<lparr>RC := (RC ?s1)\<lparr>ExprEval := exprEval\<rparr>\<rparr>"
  let ?s3 = "?s2\<lparr>world := w3\<rparr>"
  have l3: "map_of (StepResults (RC ?s3)) j = map_of (StepResults (RC (beginStep sc s))) j" for j
    by simp
  have cur3: "CurrentStep (RC ?s3) = ID (Step sc)" by simp
  show ?thesis
  proof (cases berr)
    case None
    have n: "newStepExecutor sc ctx s = processRunnerFileCommands c None ?file ctx ?s3"
      using c en se cp ex None
      by (simp add: newStepExecutor_def runStepBody_def Let_def)
    have "UpdateFromEnv c ?file ctx (world ?s3) = ((uerr, writes), w4)" using up by simp
    from processRunnerFileCommands_result[OF this, of None] obtain s' where
      s': "processRunnerFileCommands c None ?file ctx ?s3 =
             (case uerr of Some ue \<Rightarrow> Some ue | None \<Rightarrow> None, s')"
          "world s' = w4" "CurrentStep (RC s') = CurrentStep (RC ?s3)"
          "jobErrors s' = jobErrors ?s3"
          "\<forall>j. map_of (StepResults (RC s')) j =
            (if j = CurrentStep (RC ?s3) \<and> uerr = None
             then map_option (\<lambda>r. r\<lparr>Outputs := Outputs r ++ map_of (rev writes)\<rparr>)
                    (map_of (StepResults (RC ?s3)) j)
             else map_of (StepResults (RC ?s3)) j)"
      by blast
    have r: "newStepExecutor sc ctx s = (case uerr of Some ue \<Rightarrow> Some ue | None \<Rightarrow> None, s')"
      using n s'(1) by (simp only:)
    note fin = s'(3,4,5)[unfolded l3 cur3 beginStep_lookup beginStep_frame]
    have je: "jobErrors ?s3 = jobErrors s" by simp
    show ?thesis
      apply (rule exI[of _ s'])
      using r s'(2) fin None je
      by (cases uerr) simp_all
  next
    case (Some e)
    let ?s4 = "updStepResult (\<lambda>r. r\<lparr>Outcome := StepStatusFailure\<rparr>) ?s3"
    let ?s5 = "updStepResult (\<lambda>r. r\<lparr>Conclusion :=
        if ContinueOnError (Step sc) then StepStatusSuccess else StepStatusFailure\<rparr>) ?s4"
    let ?org = "if ContinueOnError (Step sc) then None else Some e"
    have n: "newStepExecutor sc ctx s = processRunnerFileCommands c ?org ?file ctx ?s5"
      using c en se cp ex Some
      by (simp add: newStepExecutor_def runStepBody_def Let_def)
    have "UpdateFromEnv c ?file ctx (world ?s5) = ((uerr, writes), w4)" using up by simp
    from processRunnerFileCommands_result[OF this, of ?org] obtain s' where
      s': "processRunnerFileCommands c ?org ?file ctx ?s5 =
             (case uerr of Some ue \<Rightarrow> Some ue | None \<Rightarrow> ?org, s')"
          "world s' = w4" "CurrentStep (RC s') = CurrentStep (RC ?s5)"
          "jobErrors s' = jobErrors ?s5"
          "\<forall>j. map_of (StepResults (RC s')) j =
            (if j = CurrentStep (RC ?s5) \<and> uerr = None
             then map_option (\<lambda>r. r\<lparr>Outputs := Outputs r ++ map_of (rev writes)\<rparr>)
                    (map_of (StepResults (RC ?s5)) j)
             else map_of (StepResults (RC ?s5)) j)"
      by blast
    have l5: "map_of (StepResults (RC ?s5)) j =
        (if j = ID (Step sc)
         then Some \<lparr>Outputs = Map.empty,
                Conclusion = (if ContinueOnError (Step sc) then StepStatusSuccess
                              else StepStatusFailure),
                Outcome = StepStatusFailure\<rparr>
         else map_of (StepResults (RC s)) j)" for j
      by (simp add: updStepResult_lookup beginStep_lookup)
    have cur5: "CurrentStep (RC ?s5) = ID (Step sc)" "jobErrors ?s5 = jobErrors s" by simp_all
    have r: "newStepExecutor sc ctx s = (case uerr of Some ue \<Rightarrow> Some ue | None \<Rightarrow> ?org, s')"
      using n s'(1) by (simp only:)
    note fin = s'(3,4,5)[unfolded l5 cur5]
    show ?thesis
      apply (rule exI[of _ s'])
      using r s'(2) fin Some
      by (cases uerr) simp_all
  qed
qed

lemma NewPipelineExecutor_Cons:
  "NewPipelineExecutor (e # es) ctx s =
     (case e ctx s of
        (Some x, s1) \<Rightarrow> (Some x, s1)
      | (None, s1) \<Rightarrow>
          if es = [] then (None, s1)
          else (case ctx_Err ctx s1 of
                  Some ce \<Rightarrow> (Some ce, s1)
                | None \<Rightarrow> NewPipelineExecutor es ctx s1))"
  by (cases es) (auto simp: Then_def split: prod.splits option.splits)

text \<open>
  C1 (amended). A step that is enabled and set up, and whose body fails with \<open>err\<close>: its
  recorded outcome is Failure; with continue-on-error its conclusion is Success, without
  it Failure. The output file is then read back: if that read fails, its error is what the
  executor returns, with or without continue-on-error. If it succeeds, the executor
  returns success with continue-on-error, so that a pipeline goes on to its next unit,
  unless it finds the context cancelled at that point: then it ends there with the
  cancellation error. Without continue-on-error the executor returns \<open>err\<close>, which ends
  the pipeline.
\<close>

theorem newStepExecutor_failing_body:
  assumes "JobContainer (RC s) = Some c"
    and "isEnabled sc ctx (beginStep sc s) = Inr True"
    and "setupEnv sc ctx (world s) = (Inr (exprEval, env), w1)"
    and "Copy c (GetActPath (RC s)) fileCommandEntries ctx w1 = (copyerr, w2)"
    and "StepContext.Executor sc (fileCommandEnv (GetActPath (RC s)) env) ctx w2 = (Some err, w3)"
    and "UpdateFromEnv c (path_Join [GetActPath (RC s), outputFileCommand]) ctx w3
           = ((uerr, writes), w4)"
  shows "\<exists>r s' res.
      newStepExecutor sc ctx s = (r, s') \<and>
      map_of (StepResults (RC s')) (ID (Step sc)) = Some res \<and>
      Outcome res = StepStatusFailure \<and>
      Conclusion res =
        (if ContinueOnError (Step sc) then StepStatusSuccess else StepStatusFailure) \<and>
      r = (case uerr of
             Some ue \<Rightarrow> Some ue
           | None \<Rightarrow> if ContinueOnError (Step sc) then None else Some err) \<and>
      NewPipelineExecutor (newStepExecutor sc # next # rest) ctx s =
        (case r of
           Some x \<Rightarrow> (Some x, s')
         | None \<Rightarrow> (case ctx_Err ctx s' of
                      Some ce \<Rightarrow> (Some ce, s')
                    | None \<Rightarrow> NewPipelineExecutor (next # rest) ctx s'))"
proof -
  from newStepExecutor_run[OF assms] obtain s' where
    run: "newStepExecutor sc ctx s =
           (case uerr of
              Some ue \<Rightarrow> Some ue
            | None \<Rightarrow> (case Some err of
                         None \<Rightarrow> None
                       | Some e \<Rightarrow> if ContinueOnError (Step sc) then None else Some e), s')"
        "map_of (StepResults (RC s')) (ID (Step sc)) =
           Some \<lparr>Outputs = (case uerr of None \<Rightarrow> map_of (rev writes) | Some ue \<Rightarrow> Map.empty),
                 Conclusion = (case Some err of
                                 None \<Rightarrow> StepStatusSuccess
                               | Some e \<Rightarrow> if ContinueOnError (Step sc) then StepStatusSuccess
                                           else StepStatusFailure),
                 Outcome = (case Some err of None \<Rightarrow> StepStatusSuccess
                                       | Some e \<Rightarrow> StepStatusFailure)\<rparr>"
    by blast
  have s': "newStepExecutor sc ctx s =
           (case uerr of
              Some ue \<Rightarrow> Some ue
            | None \<Rightarrow> if ContinueOnError (Step sc) then None else Some err, s')"
        "map_of (StepResults (RC s')) (ID (Step sc)) =
           Some \<lparr>Outputs = (case uerr of None \<Rightarrow> map_of (rev writes) | Some ue \<Rightarrow> Map.empty),
                 Conclusion = (if ContinueOnError (Step sc) then StepStatusSuccess
                               else StepStatusFailure),
                 Outcome = StepStatusFailure\<rparr>"
    using run by (cases uerr; simp)+
  have "NewPipelineExecutor (newStepExecutor sc # next # rest) ctx s =
        (case (case uerr of
              Some ue \<Rightarrow> Some ue
            | None \<Rightarrow> if ContinueOnError (Step sc) then None else Some err) of
           Some x \<Rightarrow> (Some x, s')
         | None \<Rightarrow> (case ctx_Err ctx s' of
                      Some ce \<Rightarrow> (Some ce, s')
                    | None \<Rightarrow> NewPipelineExecutor (next # rest) ctx s'))"
    unfolding NewPipelineExecutor_Cons[of "newStepExecutor sc"] s'(1)
    by (simp split: option.splits)
  with s' show ?thesis by simp
qed

text \<open>The theorem at the failing step \<open>s1\<close>, with and without continue-on-error.\<close>

theorem newStepExecutor_failing_body_witness:
  "JobContainer (RC state0) = Some container0 \<and>
   isEnabled (failingStep True) ctx0 (beginStep (failingStep True) state0) = Inr True \<and>
   (\<exists>s' res. newStepExecutor (failingStep True) ctx0 state0 = (None, s') \<and>
      map_of (StepResults (RC s')) ''s1'' = Some res \<and>
      Outcome res = StepStatusFailure \<and> Conclusion res = StepStatusSuccess) \<and>
   (\<exists>s' res. newStepExecutor (failingStep False) ctx0 state0 = (Some (Err ''exit status 1''), s') \<and>
      map_of (StepResults (RC s')) ''s1'' = Some res \<and>
      Outcome res = StepStatusFailure \<and> Conclusion res = StepStatusFailure)"
proof -
  have c: "JobContainer (RC state0) = Some container0" by (simp add: state0_def)
  have en: "isEnabled (failingStep b) ctx0 (beginStep (failingStep b) state0) = Inr True" for b
    by (simp add: failingStep_def)
  have se: "setupEnv (failingStep b) ctx0 (world state0) =
      (Inr (\<lparr>Interpolate = (\<lambda>s. s)\<rparr>, Map.empty), world0)" for b
    by (simp add: failingStep_def state0_def)
  have cp: "Copy container0 (GetActPath (RC state0)) fileCommandEntries ctx0 world0 = (None, world0)"
    by (simp add: container0_def)
  have ex: "StepContext.Executor (failingStep b) (fileCommandEnv (GetActPath (RC state0)) Map.empty)
      ctx0 world0 = (Some (Err ''exit status 1''), world0)" for b
    by (simp add: failingStep_def)
  have up: "UpdateFromEnv container0 (path_Join [GetActPath (RC state0), outputFileCommand]) ctx0 world0
      = ((None, [(''a'', ''1''), (''b'', ''2'')]), world0)"
    by (simp add: container0_def)
  have i: "ID (Step (failingStep b)) = ''s1''" "ContinueOnError (Step (failingStep b)) = b" for b
    by (simp_all add: failingStep_def)
  from newStepExecutor_failing_body[where ?next = JobError and rest = "[]", OF c en se cp ex up, of True]
  have t: "\<exists>s' res. newStepExecutor (failingStep True) ctx0 state0 = (None, s') \<and>
      map_of (StepResults (RC s')) ''s1'' = Some res \<and>
      Outcome res = StepStatusFailure \<and> Conclusion res = StepStatusSuccess"
    unfolding i by auto
  from newStepExecutor_failing_body[where ?next = JobError and rest = "[]", OF c en se cp ex up, of False]
  have f: "\<exists>s' res. newStepExecutor (failingStep False) ctx0 state0
        = (Some (Err ''exit status 1''), s') \<and>
      map_of (StepResults (RC s')) ''s1'' = Some res \<and>
      Outcome res = StepStatusFailure \<and> Conclusion res = StepStatusFailure"
    unfolding i by auto
  from c en t f show ?thesis by blast
qed

text \<open>Where the body of the step with continue-on-error fails after the run has been
  cancelled, the step returns success all the same, and the sequence ends: the unit
  after it does not run.\<close>

lemma newStepExecutor_cancelled_pipeline:
  "fst (newStepExecutor failingCancelledStep ctx0 state0) = None"
  "fst (NewPipelineExecutor [newStepExecutor failingCancelledStep, onWorld (Remove container0)]
          ctx0 state0) = Some (Err ''context canceled'')"
  "driver (world (snd (NewPipelineExecutor
     [newStepExecutor failingCancelledStep, onWorld (Remove container0)] ctx0 state0))) = True"
  by (simp_all add: Then_def onWorld_def newStepExecutor_def beginStep_def runStepBody_def
      processRunnerFileCommands_def updStepResult_def setOutput_def ctx_Err_def Let_def
      failingCancelledStep_def state0_def rc0_def container0_def world0_def ctx0_def)

text \<open>C1 as stated fails when the output file cannot be read: the step with
  continue-on-error does not return success, and the step without it does not return the
  error of its body.\<close>

lemma state1_eval:
  "fst (newStepExecutor (failingStep b) ctx0 state1) = Some (Err ''cannot read the output file'')"
  by (simp add: newStepExecutor_def beginStep_def runStepBody_def processRunnerFileCommands_def
      Let_def failingStep_def state1_def state0_def unreadable_def container0_def)

theorem newStepExecutor_read_error_counterexample:
  "ContinueOnError (Step (failingStep True)) \<and>
   fst (StepContext.Executor (failingStep True) Map.empty ctx0 world0) = Some (Err ''exit status 1'') \<and>
   fst (newStepExecutor (failingStep True) ctx0 state1) = Some (Err ''cannot read the output file'') \<and>
   fst (newStepExecutor (failingStep False) ctx0 state1) = Some (Err ''cannot read the output file'')"
  by (simp add: state1_eval) (simp add: failingStep_def)

text \<open>
  C2. A step that is enabled and set up, whether its body succeeds or fails (\<open>berr\<close>):
  the output file is read after the body, on the world the body left. If the read fails,
  its error is the executor's result, whatever the body returned. If it succeeds, the
  executor returns the body's error (nil under continue-on-error), and the step's output
  mapping holds the assignments read, a later one for a key over an earlier one: every
  pair when no key is assigned twice.
\<close>

theorem newStepExecutor_output_file:
  assumes "JobContainer (RC s) = Some c"
    and "isEnabled sc ctx (beginStep sc s) = Inr True"
    and "setupEnv sc ctx (world s) = (Inr (exprEval, env), w1)"
    and "Copy c (GetActPath (RC s)) fileCommandEntries ctx w1 = (copyerr, w2)"
    and "StepContext.Executor sc (fileCommandEnv (GetActPath (RC s)) env) ctx w2 = (berr, w3)"
    and "UpdateFromEnv c (path_Join [GetActPath (RC s), outputFileCommand]) ctx w3
           = ((uerr, writes), w4)"
  shows "\<exists>r s'.
      newStepExecutor sc ctx s = (r, s') \<and> world s' = w4 \<and>
      (case uerr of
         Some ue \<Rightarrow> r = Some ue
       | None \<Rightarrow>
           r = (case berr of
                  None \<Rightarrow> None
                | Some e \<Rightarrow> if ContinueOnError (Step sc) then None else Some e) \<and>
           (\<exists>res. map_of (StepResults (RC s')) (ID (Step sc)) = Some res \<and>
              Outputs res = map_of (rev writes) \<and>
              (distinct (map fst writes) \<longrightarrow> (\<forall>(k, v) \<in> set writes. Outputs res k = Some v))))"
proof -
  from newStepExecutor_run[OF assms] obtain s' where
    run: "newStepExecutor sc ctx s =
           (case uerr of
              Some ue \<Rightarrow> Some ue
            | None \<Rightarrow> (case berr of
                         None \<Rightarrow> None
                       | Some e \<Rightarrow> if ContinueOnError (Step sc) then None else Some e), s')"
        "world s' = w4"
        "map_of (StepResults (RC s')) (ID (Step sc)) =
           Some \<lparr>Outputs = (case uerr of None \<Rightarrow> map_of (rev writes) | Some ue \<Rightarrow> Map.empty),
                 Conclusion = (case berr of
                                 None \<Rightarrow> StepStatusSuccess
                               | Some e \<Rightarrow> if ContinueOnError (Step sc) then StepStatusSuccess
                                           else StepStatusFailure),
                 Outcome = (case berr of None \<Rightarrow> StepStatusSuccess
                                       | Some e \<Rightarrow> StepStatusFailure)\<rparr>"
    by blast
  have d: "distinct (map fst writes) \<longrightarrow> (\<forall>(k, v) \<in> set writes. map_of (rev writes) k = Some v)"
    by (auto simp: map_of_rev_distinct)
  show ?thesis
  proof (cases uerr)
    case (Some ue)
    with run show ?thesis by simp
  next
    case None
    with run d show ?thesis by simp
  qed
qed

text \<open>The theorem at the failing step without continue-on-error: both pairs of the output
  file are in its outputs.\<close>

theorem newStepExecutor_output_file_witness:
  "JobContainer (RC state0) = Some container0 \<and>
   distinct (map fst [(''a'', ''1''), (''b'', ''2'')]) \<and>
   (\<exists>s' res. newStepExecutor (failingStep False) ctx0 state0 = (Some (Err ''exit status 1''), s') \<and>
      map_of (StepResults (RC s')) ''s1'' = Some res \<and>
      Outputs res ''a'' = Some ''1'' \<and> Outputs res ''b'' = Some ''2'')"
proof -
  have c: "JobContainer (RC state0) = Some container0" by (simp add: state0_def)
  have en: "isEnabled (failingStep False) ctx0 (beginStep (failingStep False) state0) = Inr True"
    by (simp add: failingStep_def)
  have se: "setupEnv (failingStep False) ctx0 (world state0) =
      (Inr (\<lparr>Interpolate = (\<lambda>s. s)\<rparr>, Map.empty), world0)"
    by (simp add: failingStep_def state0_def)
  have cp: "Copy container0 (GetActPath (RC state0)) fileCommandEntries ctx0 world0 = (None, world0)"
    by (simp add: container0_def)
  have ex: "StepContext.Executor (failingStep False)
      (fileCommandEnv (GetActPath (RC state0)) Map.empty)
      ctx0 world0 = (Some (Err ''exit status 1''), world0)"
    by (simp add: failingStep_def)
  have up: "UpdateFromEnv container0 (path_Join [GetActPath (RC state0), outputFileCommand]) ctx0 world0
      = ((None, [(''a'', ''1''), (''b'', ''2'')]), world0)"
    by (simp add: container0_def)
  have i: "ID (Step (failingStep False)) = ''s1''" "ContinueOnError (Step (failingStep False)) = False"
    by (simp_all add: failingStep_def)
  have d: "distinct (map fst [(''a'', ''1''), (''b'', ''2'')])" by simp
  from newStepExecutor_output_file[OF c en se cp ex up]
  have "\<exists>s' res. newStepExecutor (failingStep False) ctx0 state0 = (Some (Err ''exit status 1''), s') \<and>
      map_of (StepResults (RC s')) ''s1'' = Some res \<and>
      Outputs res ''a'' = Some ''1'' \<and> Outputs res ''b'' = Some ''2''"
    unfolding i by auto
  with c d show ?thesis by blast
qed

section \<open>Properties of stopping the job container\<close>

text \<open>What removing one volume does.\<close>

lemma NewDockerVolumeRemoveExecutor_result:
  assumes "clientError (daemon (world s)) = None" "listError (daemon (world s)) = None"
  shows "NewDockerVolumeRemoveExecutor volume force ctx s =
     (if volume \<in> set (volumes (daemon (world s))) \<and> \<not> Dryrun ctx
      then (case removeError (daemon (world s)) volume force of
              Some err \<Rightarrow> (Some err, s)
            | None \<Rightarrow>
                (None, s\<lparr>world := (world s)\<lparr>daemon := (daemon (world s))
                   \<lparr>volumes := removeAll volume (volumes (daemon (world s)))\<rparr>\<rparr>\<rparr>))
      else (None, s))"
  using assms
  by (simp add: NewDockerVolumeRemoveExecutor_def removeExecutor_def VolumeRemove_def
      list_ex_iff)

lemma NewDockerVolumeRemoveExecutor_unreachable:
  "clientError (daemon (world s)) = Some err \<Longrightarrow>
   NewDockerVolumeRemoveExecutor volume force ctx s = (Some err, s)"
  by (simp add: NewDockerVolumeRemoveExecutor_def)

lemma NewDockerVolumeRemoveExecutor_frame:
  assumes "NewDockerVolumeRemoveExecutor volume force ctx s = (r, s')"
  shows "RC s' = RC s \<and> logs s' = logs s \<and> jobErrors s' = jobErrors s \<and>
         driver (world s') = driver (world s) \<and> cancelled (world s') = cancelled (world s) \<and>
         clientError (daemon (world s')) = clientError (daemon (world s)) \<and>
         listError (daemon (world s')) = listError (daemon (world s)) \<and>
         removeError (daemon (world s')) = removeError (daemon (world s))"
  using assms
  by (auto simp: NewDockerVolumeRemoveExecutor_def removeExecutor_def VolumeRemove_def
      split: option.splits if_splits)

lemma stopJobContainer_frame:
  assumes "stopJobContainer ctx s = (r, s')"
  shows "RC s' = RC s \<and> logs s' = logs s \<and> jobErrors s' = jobErrors s"
proof (cases "JobContainer (RC s)")
  case None
  with assms show ?thesis by (simp add: stopJobContainer_def)
next
  case (Some c)
  show ?thesis
  proof (cases "ReuseContainers (Config (RC s))")
    case True
    with assms Some show ?thesis by (simp add: stopJobContainer_def)
  next
    case False
    obtain rerr w1 where rm: "Remove c ctx (world s) = (rerr, w1)" by (cases "Remove c ctx (world s)")
    let ?s1 = "s\<lparr>world := w1\<rparr>"
    let ?n = "jobContainerName (RC s)"
    obtain e1 s2 where v1: "NewDockerVolumeRemoveExecutor ?n False ctx ?s1 = (e1, s2)"
      by (cases "NewDockerVolumeRemoveExecutor ?n False ctx ?s1")
    obtain e2 s3 where v2: "NewDockerVolumeRemoveExecutor (?n @ ''-env'') False ctx s2 = (e2, s3)"
      by (cases "NewDockerVolumeRemoveExecutor (?n @ ''-env'') False ctx s2")
    from NewDockerVolumeRemoveExecutor_frame[OF v1] NewDockerVolumeRemoveExecutor_frame[OF v2]
    have f: "RC s3 = RC s" "logs s3 = logs s" "jobErrors s3 = jobErrors s" by simp_all
    from assms Some False rm v1 v2 f show ?thesis
      by (auto simp: stopJobContainer_def Then_def If_def Finally_def onWorld_def
          split: option.splits if_splits)
  qed
qed

lemma stopJobContainer_gate:
  "JobContainer (RC s) = None \<or> ReuseContainers (Config (RC s)) \<Longrightarrow>
   stopJobContainer ctx s = (None, s)"
  by (auto simp: stopJobContainer_def split: option.splits)

lemma stopJobContainer_remove:
  assumes "JobContainer (RC s) = Some c" "\<not> ReuseContainers (Config (RC s))"
    and "Remove c ctx (world s) = (rerr, w1)"
  shows "stopJobContainer ctx s =
     (case rerr of
        Some e \<Rightarrow> (Some e, s\<lparr>world := w1\<rparr>)
      | None \<Rightarrow>
          (case ctx_Err ctx (s\<lparr>world := w1\<rparr>) of
             Some ce \<Rightarrow> (Some ce, s\<lparr>world := w1\<rparr>)
           | None \<Rightarrow>
               if Local (RC s) then (None, s\<lparr>world := w1\<rparr>)
               else Finally (NewDockerVolumeRemoveExecutor (jobContainerName (RC s)) False)
                      (NewDockerVolumeRemoveExecutor (jobContainerName (RC s) @ ''-env'') False)
                      ctx (s\<lparr>world := w1\<rparr>)))"
  using assms
  by (simp add: stopJobContainer_def Then_def If_def onWorld_def split: option.splits)

text \<open>The two volumes, with a daemon that can be reached and outside a dry run.\<close>

lemma remove_both_volumes:
  assumes reach: "clientError (daemon (world s)) = None" "listError (daemon (world s)) = None"
    and dry: "\<not> Dryrun ctx"
  shows "\<exists>r s'. Finally (NewDockerVolumeRemoveExecutor n False)
                (NewDockerVolumeRemoveExecutor (n @ ''-env'') False) ctx s = (r, s') \<and>
      RC s' = RC s \<and> driver (world s') = driver (world s) \<and>
      r = (case (if n \<in> set (volumes (daemon (world s)))
                 then removeError (daemon (world s)) n False else None) of
             Some x \<Rightarrow> Some x
           | None \<Rightarrow> (if n @ ''-env'' \<in> set (volumes (daemon (world s)))
                      then removeError (daemon (world s)) (n @ ''-env'') False else None)) \<and>
      (\<forall>v. v \<in> set (volumes (daemon (world s'))) \<longleftrightarrow>
           v \<in> set (volumes (daemon (world s))) \<and>
           (v = n \<or> v = n @ ''-env'' \<longrightarrow> removeError (daemon (world s)) v False \<noteq> None))"
proof -
  let ?V = "volumes (daemon (world s))"
  let ?re = "removeError (daemon (world s))"
  have ne: "n @ ''-env'' \<noteq> n" by simp
  obtain e1 s2 where v1: "NewDockerVolumeRemoveExecutor n False ctx s = (e1, s2)"
    by (cases "NewDockerVolumeRemoveExecutor n False ctx s")
  from NewDockerVolumeRemoveExecutor_frame[OF v1]
  have f2: "RC s2 = RC s" "driver (world s2) = driver (world s)"
    "clientError (daemon (world s2)) = None" "listError (daemon (world s2)) = None"
    "removeError (daemon (world s2)) = ?re"
    using reach by simp_all
  from v1 dry have r1:
    "e1 = (if n \<in> set ?V then ?re n False else None)"
    "volumes (daemon (world s2)) = (if n \<in> set ?V \<and> ?re n False = None then removeAll n ?V else ?V)"
    unfolding NewDockerVolumeRemoveExecutor_result[OF reach]
    by (auto split: if_splits option.splits)
  obtain e2 s3 where v2: "NewDockerVolumeRemoveExecutor (n @ ''-env'') False ctx s2 = (e2, s3)"
    by (cases "NewDockerVolumeRemoveExecutor (n @ ''-env'') False ctx s2")
  from NewDockerVolumeRemoveExecutor_frame[OF v2]
  have f3: "RC s3 = RC s" "driver (world s3) = driver (world s)" using f2 by simp_all
  let ?V2 = "volumes (daemon (world s2))"
  from v2 dry have r2:
    "e2 = (if n @ ''-env'' \<in> set ?V2 then ?re (n @ ''-env'') False else None)"
    "volumes (daemon (world s3)) =
       (if n @ ''-env'' \<in> set ?V2 \<and> ?re (n @ ''-env'') False = None
        then removeAll (n @ ''-env'') ?V2 else ?V2)"
    unfolding NewDockerVolumeRemoveExecutor_result[OF f2(3,4)] f2(5)
    by (auto split: if_splits option.splits)
  have m2: "n @ ''-env'' \<in> set ?V2 \<longleftrightarrow> n @ ''-env'' \<in> set ?V"
    unfolding r1(2) using ne by auto
  have fin: "Finally (NewDockerVolumeRemoveExecutor n False)
                (NewDockerVolumeRemoveExecutor (n @ ''-env'') False) ctx s =
             (case e1 of Some x \<Rightarrow> Some x | None \<Rightarrow> e2, s3)"
    using v1 v2 by (simp add: Finally_def)
  have mem: "\<forall>v. v \<in> set (volumes (daemon (world s3))) \<longleftrightarrow>
           v \<in> set ?V \<and> (v = n \<or> v = n @ ''-env'' \<longrightarrow> ?re v False \<noteq> None)"
    unfolding r2(2) m2 r1(2) using ne by auto
  have e2: "e2 = (if n @ ''-env'' \<in> set ?V then ?re (n @ ''-env'') False else None)"
    using r2(1) m2 by simp
  show ?thesis
    apply (rule exI[of _ "case e1 of Some x \<Rightarrow> Some x | None \<Rightarrow> e2"])
    apply (rule exI[of _ s3])
    using fin f3 mem unfolding r1(1) e2 by simp
qed

text \<open>The two volumes, with a daemon that cannot be reached or cannot list its volumes,
  and in a dry run.\<close>

lemma keep_both_volumes:
  "clientError (daemon (world s)) = Some de \<Longrightarrow>
   Finally (NewDockerVolumeRemoveExecutor n False)
     (NewDockerVolumeRemoveExecutor (n @ ''-env'') False) ctx s = (Some de, s)"
  "clientError (daemon (world s)) = None \<Longrightarrow> listError (daemon (world s)) = Some de \<Longrightarrow>
   Finally (NewDockerVolumeRemoveExecutor n False)
     (NewDockerVolumeRemoveExecutor (n @ ''-env'') False) ctx s = (Some de, s)"
  "clientError (daemon (world s)) = None \<Longrightarrow> listError (daemon (world s)) = None \<Longrightarrow>
   Dryrun ctx \<Longrightarrow>
   Finally (NewDockerVolumeRemoveExecutor n False)
     (NewDockerVolumeRemoveExecutor (n @ ''-env'') False) ctx s = (None, s)"
  by (simp_all add: Finally_def NewDockerVolumeRemoveExecutor_def removeExecutor_def)

text \<open>
  C4 (amended). \<open>stopJobContainer\<close> does nothing and returns success when there is no
  container handle or when reuse is configured. Otherwise it removes the job container; if
  that fails, this error is the result and no volume is touched, and if the context is
  then found cancelled the cancellation error is the result. Else, in local (host) mode it
  is done. Outside it, it turns to the job's two named volumes, \<open>n\<close> and \<open>n-env\<close>: with
  a daemon that cannot be reached, or cannot list its volumes, that error is the result
  and no volume is removed; with a daemon that can be reached, in a dry run no volume is
  removed and the result is success, and outside a dry run a volume that is not listed
  counts as removed, the removal of \<open>n-env\<close> is attempted whatever the removal of \<open>n\<close>
  returned, the first error of the two is the result, and every other volume stays. So a
  stop at which both volumes are gone already returns success.
\<close>

theorem stopJobContainer_effect:
  assumes n: "n = jobContainerName (RC s)"
  shows
   "((JobContainer (RC s) = None \<or> ReuseContainers (Config (RC s))) \<longrightarrow>
       stopJobContainer ctx s = (None, s)) \<and>
    (JobContainer (RC s) = Some c \<and> \<not> ReuseContainers (Config (RC s)) \<and>
     Remove c ctx (world s) = (Some e, w1) \<longrightarrow>
       stopJobContainer ctx s = (Some e, s\<lparr>world := w1\<rparr>)) \<and>
    (JobContainer (RC s) = Some c \<and> \<not> ReuseContainers (Config (RC s)) \<and>
     Remove c ctx (world s) = (None, w1) \<longrightarrow>
       (ctx_Err ctx (s\<lparr>world := w1\<rparr>) = Some ce \<longrightarrow>
          stopJobContainer ctx s = (Some ce, s\<lparr>world := w1\<rparr>)) \<and>
       (ctx_Err ctx (s\<lparr>world := w1\<rparr>) = None \<and> Local (RC s) \<longrightarrow>
          stopJobContainer ctx s = (None, s\<lparr>world := w1\<rparr>)) \<and>
       (ctx_Err ctx (s\<lparr>world := w1\<rparr>) = None \<and> \<not> Local (RC s) \<and>
        clientError (daemon w1) = Some de \<longrightarrow>
          stopJobContainer ctx s = (Some de, s\<lparr>world := w1\<rparr>)) \<and>
       (ctx_Err ctx (s\<lparr>world := w1\<rparr>) = None \<and> \<not> Local (RC s) \<and>
        clientError (daemon w1) = None \<and> listError (daemon w1) = Some de \<longrightarrow>
          stopJobContainer ctx s = (Some de, s\<lparr>world := w1\<rparr>)) \<and>
       (ctx_Err ctx (s\<lparr>world := w1\<rparr>) = None \<and> \<not> Local (RC s) \<and>
        clientError (daemon w1) = None \<and> listError (daemon w1) = None \<and> Dryrun ctx \<longrightarrow>
          stopJobContainer ctx s = (None, s\<lparr>world := w1\<rparr>)) \<and>
       (ctx_Err ctx (s\<lparr>world := w1\<rparr>) = None \<and> \<not> Local (RC s) \<and>
        clientError (daemon w1) = None \<and> listError (daemon w1) = None \<and> \<not> Dryrun ctx \<longrightarrow>
          (\<exists>r s'. stopJobContainer ctx s = (r, s') \<and> RC s' = RC s \<and>
             driver (world s') = driver w1 \<and>
             r = (case (if n \<in> set (volumes (daemon w1))
                        then removeError (daemon w1) n False else None) of
                    Some x \<Rightarrow> Some x
                  | None \<Rightarrow> (if n @ ''-env'' \<in> set (volumes (daemon w1))
                             then removeError (daemon w1) (n @ ''-env'') False else None)) \<and>
             (\<forall>v. v \<in> set (volumes (daemon (world s'))) \<longleftrightarrow>
                  v \<in> set (volumes (daemon w1)) \<and>
                  (v = n \<or> v = n @ ''-env'' \<longrightarrow> removeError (daemon w1) v False \<noteq> None)) \<and>
             (n \<notin> set (volumes (daemon w1)) \<and> n @ ''-env'' \<notin> set (volumes (daemon w1)) \<longrightarrow>
                r = None))))"
proof (intro conjI impI)
  assume "JobContainer (RC s) = None \<or> ReuseContainers (Config (RC s))"
  then show "stopJobContainer ctx s = (None, s)" by (rule stopJobContainer_gate)
next
  assume "JobContainer (RC s) = Some c \<and> \<not> ReuseContainers (Config (RC s)) \<and>
     Remove c ctx (world s) = (Some e, w1)"
  then show "stopJobContainer ctx s = (Some e, s\<lparr>world := w1\<rparr>)"
    using stopJobContainer_remove[of s c ctx "Some e" w1] by simp
next
  assume a: "JobContainer (RC s) = Some c \<and> \<not> ReuseContainers (Config (RC s)) \<and>
     Remove c ctx (world s) = (None, w1)"
    and "ctx_Err ctx (s\<lparr>world := w1\<rparr>) = Some ce"
  then show "stopJobContainer ctx s = (Some ce, s\<lparr>world := w1\<rparr>)"
    using stopJobContainer_remove[of s c ctx None w1] by simp
next
  assume a: "JobContainer (RC s) = Some c \<and> \<not> ReuseContainers (Config (RC s)) \<and>
     Remove c ctx (world s) = (None, w1)"
    and "ctx_Err ctx (s\<lparr>world := w1\<rparr>) = None \<and> Local (RC s)"
  then show "stopJobContainer ctx s = (None, s\<lparr>world := w1\<rparr>)"
    using stopJobContainer_remove[of s c ctx None w1] by simp
next
  assume a: "JobContainer (RC s) = Some c \<and> \<not> ReuseContainers (Config (RC s)) \<and>
     Remove c ctx (world s) = (None, w1)"
    and b: "ctx_Err ctx (s\<lparr>world := w1\<rparr>) = None \<and> \<not> Local (RC s) \<and>
        clientError (daemon w1) = Some de"
  have "clientError (daemon (world (s\<lparr>world := w1\<rparr>))) = Some de" using b by simp
  from keep_both_volumes(1)[OF this] a b
  show "stopJobContainer ctx s = (Some de, s\<lparr>world := w1\<rparr>)"
    using stopJobContainer_remove[of s c ctx None w1] by simp
next
  assume a: "JobContainer (RC s) = Some c \<and> \<not> ReuseContainers (Config (RC s)) \<and>
     Remove c ctx (world s) = (None, w1)"
    and b: "ctx_Err ctx (s\<lparr>world := w1\<rparr>) = None \<and> \<not> Local (RC s) \<and>
        clientError (daemon w1) = None \<and> listError (daemon w1) = Some de"
  have "clientError (daemon (world (s\<lparr>world := w1\<rparr>))) = None"
    "listError (daemon (world (s\<lparr>world := w1\<rparr>))) = Some de" using b by simp_all
  from keep_both_volumes(2)[OF this] a b
  show "stopJobContainer ctx s = (Some de, s\<lparr>world := w1\<rparr>)"
    using stopJobContainer_remove[of s c ctx None w1] by simp
next
  assume a: "JobContainer (RC s) = Some c \<and> \<not> ReuseContainers (Config (RC s)) \<and>
     Remove c ctx (world s) = (None, w1)"
    and b: "ctx_Err ctx (s\<lparr>world := w1\<rparr>) = None \<and> \<not> Local (RC s) \<and>
        clientError (daemon w1) = None \<and> listError (daemon w1) = None \<and> Dryrun ctx"
  have "clientError (daemon (world (s\<lparr>world := w1\<rparr>))) = None"
    "listError (daemon (world (s\<lparr>world := w1\<rparr>))) = None" "Dryrun ctx" using b by simp_all
  from keep_both_volumes(3)[OF this] a b
  show "stopJobContainer ctx s = (None, s\<lparr>world := w1\<rparr>)"
    using stopJobContainer_remove[of s c ctx None w1] by simp
next
  assume a: "JobContainer (RC s) = Some c \<and> \<not> ReuseContainers (Config (RC s)) \<and>
     Remove c ctx (world s) = (None, w1)"
    and b: "ctx_Err ctx (s\<lparr>world := w1\<rparr>) = None \<and> \<not> Local (RC s) \<and>
        clientError (daemon w1) = None \<and> listError (daemon w1) = None \<and> \<not> Dryrun ctx"
  let ?s1 = "s\<lparr>world := w1\<rparr>"
  have st: "stopJobContainer ctx s =
      Finally (NewDockerVolumeRemoveExecutor n False)
        (NewDockerVolumeRemoveExecutor (n @ ''-env'') False) ctx ?s1"
    using a b stopJobContainer_remove[of s c ctx None w1] n by simp
  have reach: "clientError (daemon (world ?s1)) = None" "listError (daemon (world ?s1)) = None"
    using b by simp_all
  from b have dry: "\<not> Dryrun ctx" by simp
  from remove_both_volumes[OF reach dry, of n] obtain r s' where
    r: "Finally (NewDockerVolumeRemoveExecutor n False)
                (NewDockerVolumeRemoveExecutor (n @ ''-env'') False) ctx ?s1 = (r, s')"
      "RC s' = RC ?s1" "driver (world s') = driver (world ?s1)"
      "r = (case (if n \<in> set (volumes (daemon (world ?s1)))
                 then removeError (daemon (world ?s1)) n False else None) of
             Some x \<Rightarrow> Some x
           | None \<Rightarrow> (if n @ ''-env'' \<in> set (volumes (daemon (world ?s1)))
                      then removeError (daemon (world ?s1)) (n @ ''-env'') False else None))"
      "\<forall>v. v \<in> set (volumes (daemon (world s'))) \<longleftrightarrow>
           v \<in> set (volumes (daemon (world ?s1))) \<and>
           (v = n \<or> v = n @ ''-env'' \<longrightarrow> removeError (daemon (world ?s1)) v False \<noteq> None)"
    by blast
  have w: "world ?s1 = w1" "RC ?s1 = RC s" by simp_all
  note r' = r(2-5)[unfolded w]
  have abs: "n \<notin> set (volumes (daemon w1)) \<and> n @ ''-env'' \<notin> set (volumes (daemon w1)) \<longrightarrow>
      r = None"
    using r'(3) by simp
  show "\<exists>r s'. stopJobContainer ctx s = (r, s') \<and> RC s' = RC s \<and>
             driver (world s') = driver w1 \<and>
             r = (case (if n \<in> set (volumes (daemon w1))
                        then removeError (daemon w1) n False else None) of
                    Some x \<Rightarrow> Some x
                  | None \<Rightarrow> (if n @ ''-env'' \<in> set (volumes (daemon w1))
                             then removeError (daemon w1) (n @ ''-env'') False else None)) \<and>
             (\<forall>v. v \<in> set (volumes (daemon (world s'))) \<longleftrightarrow>
                  v \<in> set (volumes (daemon w1)) \<and>
                  (v = n \<or> v = n @ ''-env'' \<longrightarrow> removeError (daemon w1) v False \<noteq> None)) \<and>
             (n \<notin> set (volumes (daemon w1)) \<and> n @ ''-env'' \<notin> set (volumes (daemon w1)) \<longrightarrow>
                r = None)"
    apply (rule exI[of _ r])
    apply (rule exI[of _ s'])
    using st r(1) r' abs by (simp only: simp_thms)
qed

lemma jobContainerName_rc0: "jobContainerName rc0 = ''act-CI-build''"
  by (simp add: jobContainerName_def String_def rc0_def name_defs)

lemma state0_facts:
  "JobContainer (RC state0) = Some container0"
  "\<not> ReuseContainers (Config (RC state0))"
  "\<not> Local (RC state0)"
  "world state0 = world0"
  by (simp_all add: state0_def rc0_def)

lemma jobContainerName_state0: "jobContainerName (RC state0) = ''act-CI-build''"
  using jobContainerName_rc0
  by (simp add: state0_def jobContainerName_def String_def)

text \<open>The theorem at the example: the container and both volumes go, the tool cache
  stays, and a second stop returns success and changes nothing. In a dry run the container
  goes (its driver is asked to remove it) and the volumes stay.\<close>

theorem stopJobContainer_effect_witness:
  "''act-CI-build'' = jobContainerName (RC state0) \<and>
   JobContainer (RC state0) = Some container0 \<and> \<not> ReuseContainers (Config (RC state0)) \<and>
   Remove container0 ctx0 (world state0) = (None, world0\<lparr>driver := False\<rparr>) \<and>
   (\<exists>s'. stopJobContainer ctx0 state0 = (None, s') \<and> driver (world s') = False \<and>
      ''act-CI-build'' \<notin> set (volumes (daemon (world s'))) \<and>
      ''act-CI-build-env'' \<notin> set (volumes (daemon (world s'))) \<and>
      ''act-toolcache'' \<in> set (volumes (daemon (world s'))) \<and>
      stopJobContainer ctx0 s' = (None, s')) \<and>
   Dryrun (ctx0\<lparr>Dryrun := True\<rparr>) \<and>
   stopJobContainer (ctx0\<lparr>Dryrun := True\<rparr>) state0 =
     (None, state0\<lparr>world := world0\<lparr>driver := False\<rparr>\<rparr>) \<and>
   volumes (daemon (world0\<lparr>driver := False\<rparr>)) =
     [''act-CI-build'', ''act-CI-build-env'', ''act-toolcache'']"
proof -
  have n: "''act-CI-build'' = jobContainerName (RC state0)"
    by (simp add: jobContainerName_state0)
  have rm: "Remove container0 ctx (world state0) = (None, world0\<lparr>driver := False\<rparr>)" for ctx
    by (simp add: container0_def state0_facts)
  have pre: "JobContainer (RC state0) = Some container0 \<and> \<not> ReuseContainers (Config (RC state0)) \<and>
     Remove container0 ctx (world state0) = (None, world0\<lparr>driver := False\<rparr>)" for ctx
    using rm by (simp add: state0_facts)
  have more: "ctx_Err ctx0 (state0\<lparr>world := world0\<lparr>driver := False\<rparr>\<rparr>) = None \<and>
      \<not> Local (RC state0) \<and>
      clientError (daemon (world0\<lparr>driver := False\<rparr>)) = None \<and>
      listError (daemon (world0\<lparr>driver := False\<rparr>)) = None \<and> \<not> Dryrun ctx0"
    by (simp add: ctx_Err_def world0_def daemon0_def ctx0_def state0_facts)
  note t = stopJobContainer_effect[OF n, where ctx = ctx0 and c = container0
      and ?w1.0 = "world0\<lparr>driver := False\<rparr>" and e = "Err []" and ce = "Err []" and de = "Err []"]
  note removed = t[THEN conjunct2, THEN conjunct2, THEN mp, OF pre]
  from removed[THEN conjunct2, THEN conjunct2, THEN conjunct2, THEN conjunct2, THEN conjunct2,
      THEN mp, OF more]
  obtain r s' where s': "stopJobContainer ctx0 state0 = (r, s')" "RC s' = RC state0"
    "driver (world s') = driver (world0\<lparr>driver := False\<rparr>)"
    "r = (case (if ''act-CI-build'' \<in> set (volumes (daemon (world0\<lparr>driver := False\<rparr>)))
                        then removeError (daemon (world0\<lparr>driver := False\<rparr>)) ''act-CI-build'' False else None) of
                    Some x \<Rightarrow> Some x
                  | None \<Rightarrow> (if ''act-CI-build'' @ ''-env'' \<in> set (volumes (daemon (world0\<lparr>driver := False\<rparr>)))
                             then removeError (daemon (world0\<lparr>driver := False\<rparr>)) (''act-CI-build'' @ ''-env'') False else None))"
    "\<forall>v. v \<in> set (volumes (daemon (world s'))) \<longleftrightarrow>
                  v \<in> set (volumes (daemon (world0\<lparr>driver := False\<rparr>))) \<and>
                  (v = ''act-CI-build'' \<or> v = ''act-CI-build'' @ ''-env'' \<longrightarrow>
                     removeError (daemon (world0\<lparr>driver := False\<rparr>)) v False \<noteq> None)"
    by blast
  have r: "r = None" using s'(4) by (simp add: world0_def daemon0_def)
  have v: "''act-CI-build'' \<notin> set (volumes (daemon (world s')))"
      "''act-CI-build-env'' \<notin> set (volumes (daemon (world s')))"
      "''act-toolcache'' \<in> set (volumes (daemon (world s')))"
    using s'(5) by (simp_all add: world0_def daemon0_def)
  have d: "driver (world s') = False" using s'(3) by simp
  have e: "stopJobContainer ctx0 state0 =
      (None, state0\<lparr>world := world0\<lparr>driver := False,
         daemon := daemon0\<lparr>volumes := [''act-toolcache'']\<rparr>\<rparr>\<rparr>)"
    by (simp add: stopJobContainer_def state0_facts jobContainerName_state0 Then_def If_def
        Finally_def onWorld_def container0_def ctx_Err_def ctx0_def world0_def daemon0_def
        NewDockerVolumeRemoveExecutor_def removeExecutor_def VolumeRemove_def)
  have again: "stopJobContainer ctx0 s' = (None, s')"
    using s'(1) unfolding e
    by (auto simp: stopJobContainer_def state0_facts jobContainerName_state0 Then_def If_def
        Finally_def onWorld_def container0_def ctx_Err_def ctx0_def world0_def daemon0_def
        NewDockerVolumeRemoveExecutor_def removeExecutor_def VolumeRemove_def)
  have dr: "Dryrun (ctx0\<lparr>Dryrun := True\<rparr>)" by simp
  have more': "ctx_Err (ctx0\<lparr>Dryrun := True\<rparr>) (state0\<lparr>world := world0\<lparr>driver := False\<rparr>\<rparr>) = None \<and>
      \<not> Local (RC state0) \<and>
      clientError (daemon (world0\<lparr>driver := False\<rparr>)) = None \<and>
      listError (daemon (world0\<lparr>driver := False\<rparr>)) = None \<and> Dryrun (ctx0\<lparr>Dryrun := True\<rparr>)"
    by (simp add: ctx_Err_def world0_def daemon0_def ctx0_def state0_facts)
  note t' = stopJobContainer_effect[OF n, where ctx = "ctx0\<lparr>Dryrun := True\<rparr>" and c = container0
      and ?w1.0 = "world0\<lparr>driver := False\<rparr>" and e = "Err []" and ce = "Err []" and de = "Err []"]
  note removed' = t'[THEN conjunct2, THEN conjunct2, THEN mp, OF pre]
  have dry: "stopJobContainer (ctx0\<lparr>Dryrun := True\<rparr>) state0 =
     (None, state0\<lparr>world := world0\<lparr>driver := False\<rparr>\<rparr>)"
    by (rule removed'[THEN conjunct2, THEN conjunct2, THEN conjunct2, THEN conjunct2,
        THEN conjunct1, THEN mp, OF more'])
  have vs: "volumes (daemon (world0\<lparr>driver := False\<rparr>)) =
     [''act-CI-build'', ''act-CI-build-env'', ''act-toolcache'']"
    by (simp add: world0_def daemon0_def)
  have ex: "\<exists>s'. stopJobContainer ctx0 state0 = (None, s') \<and> driver (world s') = False \<and>
      ''act-CI-build'' \<notin> set (volumes (daemon (world s'))) \<and>
      ''act-CI-build-env'' \<notin> set (volumes (daemon (world s'))) \<and>
      ''act-toolcache'' \<in> set (volumes (daemon (world s'))) \<and>
      stopJobContainer ctx0 s' = (None, s')"
    using s'(1) r v d again by blast
  from pre[of ctx0] have p3: "JobContainer (RC state0) = Some container0"
    "\<not> ReuseContainers (Config (RC state0))"
    "Remove container0 ctx0 (world state0) = (None, world0\<lparr>driver := False\<rparr>)"
    by simp_all
  from n p3 ex dr dry vs show ?thesis by (intro conjI)
qed

text \<open>C4 as stated fails with reuse configured: the job container exists and could be
  removed, and \<open>stopJobContainer\<close> leaves it.\<close>

theorem stopJobContainer_reuse_counterexample:
  "JobContainer (RC reuseState) = Some container0 \<and>
   driver (world reuseState) = True \<and>
   Remove container0 ctx0 (world reuseState) = (None, (world reuseState)\<lparr>driver := False\<rparr>) \<and>
   stopJobContainer ctx0 reuseState = (None, reuseState)"
  by (simp add: stopJobContainer_def reuseState_def state0_def rc0_def container0_def world0_def)

section \<open>Properties of the job pipeline's clean-up\<close>

text \<open>
  C3 (amended). For an enabled job whose container handle is set when the pipeline of its
  steps returns, with or without an error: the final stage runs; with auto-removal
  configured it stops the container and then closes it, without it it only closes it. An
  error of the stop is logged and goes no further. The error of the close is the result of
  the final stage: the job's result is the error of the step pipeline if it has one, and
  else the error of the close.
\<close>

theorem Executor_cleanup:
  assumes en: "enabled ctx s"
    and job: "newJobExecutor ctx s = (jerr, s1)"
    and c: "JobContainer (RC s1) = Some c"
    and st: "stopJobContainer Background
               (s1\<lparr>logs := logs s1 @ [(''info'', ''Cleaning up container for job '' @ JobName (RC s1))]\<rparr>)
             = (serr, s2)"
    and cl: "Close c Background (world (if AutoRemove (Config (RC s1)) then s2 else s1)) = (cerr, w3)"
  shows "\<exists>s'. Executor newJobExecutor enabled ctx s =
            (case jerr of Some x \<Rightarrow> Some x | None \<Rightarrow> cerr, s') \<and>
          world s' = w3 \<and> RC s' = RC s1 \<and>
          logs s' = logs s1 @
            (if AutoRemove (Config (RC s1))
             then (''info'', ''Cleaning up container for job '' @ JobName (RC s1)) #
                  (case serr of
                     Some e \<Rightarrow> [(''error'', ''Error while cleaning container: '' @ Error e)]
                   | None \<Rightarrow> [])
             else [])"
proof -
  let ?s1' = "s1\<lparr>logs := logs s1 @ [(''info'', ''Cleaning up container for job '' @ JobName (RC s1))]\<rparr>"
  from stopJobContainer_frame[OF st] have f: "RC s2 = RC s1" "logs s2 = logs ?s1'" by simp_all
  show ?thesis
  proof (cases "AutoRemove (Config (RC s1))")
    case False
    with en job c cl show ?thesis
      by (simp add: Executor_def If_def Finally_def Executor_finally_def onWorld_def Let_def)
  next
    case True
    show ?thesis
    proof (cases serr)
      case None
      with True en job c cl st f show ?thesis
        by (simp add: Executor_def If_def Finally_def Executor_finally_def onWorld_def Let_def)
    next
      case (Some e)
      with True en job c cl st f show ?thesis
        by (simp add: Executor_def If_def Finally_def Executor_finally_def onWorld_def Let_def)
    qed
  qed
qed

text \<open>The theorem at a job whose steps succeed and whose container cannot be closed.\<close>

lemma jobContainerName_CI_build:
  "Workflow_Name r = ''CI'' \<Longrightarrow> Name r = ''build'' \<Longrightarrow> jobContainerName r = ''act-CI-build''"
  by (simp add: jobContainerName_def String_def name_defs)

lemma state2_facts:
  "JobContainer (RC state2) = Some uncloseable"
  "AutoRemove (Config (RC state2))"
  "\<not> ReuseContainers (Config (RC state2))"
  "\<not> Local (RC state2)"
  "JobName (RC state2) = ''build''"
  "Workflow_Name (RC state2) = ''CI''"
  "Name (RC state2) = ''build''"
  "world state2 = world0"
  "logs state2 = []"
  by (simp_all add: state2_def state0_def rc0_def)

lemma stop_state2:
  "stopJobContainer Background (state2\<lparr>logs := L\<rparr>) =
     (None, state2\<lparr>logs := L, world := world0\<lparr>driver := False,
        daemon := daemon0\<lparr>volumes := [''act-toolcache'']\<rparr>\<rparr>\<rparr>)"
proof -
  have n: "jobContainerName (RC state2) = ''act-CI-build''"
    by (rule jobContainerName_CI_build) (simp_all add: state2_facts)
  have rm: "Remove uncloseable ctx w = (None, w\<lparr>driver := False\<rparr>)" for ctx w
    by (simp add: uncloseable_def container0_def)
  show ?thesis
    unfolding stopJobContainer_def
    by (simp add: state2_facts n rm Then_def If_def Finally_def onWorld_def ctx_Err_def
        Background_def world0_def daemon0_def NewDockerVolumeRemoveExecutor_def
        removeExecutor_def VolumeRemove_def)
qed

theorem Executor_cleanup_witness:
  "JobContainer (RC state2) = Some uncloseable \<and> AutoRemove (Config (RC state2)) \<and>
   succeedingJob ctx0 state2 = (None, state2) \<and>
   (\<exists>s2. stopJobContainer Background
      (state2\<lparr>logs := logs state2 @ [(''info'', ''Cleaning up container for job '' @ JobName (RC state2))]\<rparr>)
       = (None, s2) \<and>
     Close uncloseable Background (world s2) = (Some (Err ''close failed''), world s2) \<and>
     (\<exists>s'. Executor succeedingJob (\<lambda>ctx s. True) ctx0 state2 = (Some (Err ''close failed''), s') \<and>
        world s' = world s2 \<and>
        logs s' = [(''info'', ''Cleaning up container for job build'')]))"
proof -
  let ?s1' = "state2\<lparr>logs := logs state2 @ [(''info'', ''Cleaning up container for job '' @ JobName (RC state2))]\<rparr>"
  let ?s2 = "state2\<lparr>logs := logs state2 @ [(''info'', ''Cleaning up container for job '' @ JobName (RC state2))],
      world := world0\<lparr>driver := False, daemon := daemon0\<lparr>volumes := [''act-toolcache'']\<rparr>\<rparr>\<rparr>"
  have c: "JobContainer (RC state2) = Some uncloseable" by (simp add: state2_facts)
  have ar: "AutoRemove (Config (RC state2))" by (simp add: state2_facts)
  have job: "succeedingJob ctx0 state2 = (None, state2)" by (simp add: succeedingJob_def)
  have st: "stopJobContainer Background ?s1' = (None, ?s2)" by (rule stop_state2)
  have cl0: "Close uncloseable Background (world ?s2) = (Some (Err ''close failed''), world ?s2)"
    by (simp add: uncloseable_def)
  have cl: "Close uncloseable Background (world (if AutoRemove (Config (RC state2)) then ?s2 else state2))
      = (Some (Err ''close failed''), world ?s2)"
    using ar cl0 by (simp only: if_True)
  from Executor_cleanup[where enabled = "\<lambda>ctx s. True" and ctx = ctx0 and s = state2
      and newJobExecutor = succeedingJob, OF TrueI job c st cl]
  obtain s' where s': "Executor succeedingJob (\<lambda>ctx s. True) ctx0 state2 =
       (case None of Some x \<Rightarrow> Some x | None \<Rightarrow> Some (Err ''close failed''), s')"
    "world s' = world ?s2"
    "logs s' = logs state2 @
            (if AutoRemove (Config (RC state2))
             then (''info'', ''Cleaning up container for job '' @ JobName (RC state2)) #
                  (case None of
                     Some e \<Rightarrow> [(''error'', ''Error while cleaning container: '' @ Error e)]
                   | None \<Rightarrow> [])
             else [])"
    by blast
  have r: "Executor succeedingJob (\<lambda>ctx s. True) ctx0 state2 = (Some (Err ''close failed''), s')"
    using s'(1) by simp
  have l: "logs s' = [(''info'', ''Cleaning up container for job build'')]"
    using s'(3) by (simp add: state2_facts)
  from c ar job st cl0 r s'(2) l show ?thesis by blast
qed

text \<open>C3 as stated fails there: the error of the close, an error of the final stage, is
  the result of the job.\<close>

theorem Executor_close_error_counterexample:
  "JobContainer (RC state2) = Some uncloseable \<and>
   succeedingJob ctx0 state2 = (None, state2) \<and>
   fst (Executor succeedingJob (\<lambda>ctx s. True) ctx0 state2) = Some (Err ''close failed'')"
proof -
  have cl: "Close uncloseable Background w = (Some (Err ''close failed''), w)" for w
    by (simp add: uncloseable_def)
  show ?thesis
    by (simp add: Executor_def If_def Finally_def Executor_finally_def Let_def succeedingJob_def
        state2_facts stop_state2 onWorld_def cl)
qed

section \<open>Properties of composite actions\<close>

text \<open>With the job error container \<open>k\<close> in the context: what the executor appended for a
  step does, and what the terminal stage returns.\<close>

lemma recordJobError_frame [simp]:
  "world (recordJobError k e s) = world s"
  "RC (recordJobError k e s) = RC s"
  "ctx_Err ctx (recordJobError k e s) = ctx_Err ctx s"
  by (simp_all add: recordJobError_def ctx_Err_def split: option.splits)















section \<open>Properties of the GitHub context\<close>

lemma newGithubContext_base:
  "newGithubContext ext (rc\<lparr>GithubContextBase := b\<rparr>) = newGithubContext ext rc"
  by (simp add: newGithubContext_def GetActPath_def)

lemma applyDefaults_base:
  "applyDefaults ext g (rc\<lparr>GithubContextBase := b\<rparr>) = applyDefaults ext g rc"
proof -
  have c: "Config (rc\<lparr>GithubContextBase := b\<rparr>) = Config rc"
    and e: "EventJSON (rc\<lparr>GithubContextBase := b\<rparr>) = EventJSON rc"
    by simp_all
  show ?thesis by (simp only: applyDefaults_def c e)
qed

text \<open>
  C7 (amended). \<open>getGithubContext\<close> first fills a context from the run context (event
  path, workflow, run id, number and attempt, actor, event name, token, workspace, the
  action's fields and the rest of \<open>newGithubContext\<close>). With a base that is supplied and
  decodes without an error, the result is that context as \<open>json.Unmarshal\<close> leaves it
  after decoding the base onto it: a field \<open>proj\<close> that the decoder leaves as it was has
  the value taken from the run context, and no default of \<open>applyDefaults\<close> is applied. With a base that does not
  decode, \<open>applyDefaults\<close> is applied to the context as the decoder left it; when it left
  it as it was, the result is the one without a base. Without a base, \<open>applyDefaults\<close> is
  applied to the context filled from the run context.
\<close>

theorem getGithubContext_base:
  "(GithubContextBase rc = Some base \<and>
    json_Unmarshal ext base (newGithubContext ext rc) = (None, ghc) \<longrightarrow>
      getGithubContext ext rc = ghc \<and>
      (proj ghc = proj (newGithubContext ext rc) \<longrightarrow>
         proj (getGithubContext ext rc) = proj (newGithubContext ext rc))) \<and>
   (GithubContextBase rc = Some base \<and>
    json_Unmarshal ext base (newGithubContext ext rc) = (Some err, ghc) \<longrightarrow>
      getGithubContext ext rc = applyDefaults ext ghc rc \<and>
      (ghc = newGithubContext ext rc \<longrightarrow>
         getGithubContext ext rc = getGithubContext ext (rc\<lparr>GithubContextBase := None\<rparr>))) \<and>
   (GithubContextBase rc = None \<longrightarrow>
      getGithubContext ext rc = applyDefaults ext (newGithubContext ext rc) rc)"
  by (simp add: getGithubContext_def newGithubContext_base applyDefaults_base)

text \<open>The examples: the run context \<open>rc0\<close> with the base \<open>{}\<close>, and with the base \<open>{\<close>.\<close>

lemma externals0_facts:
  "json_Unmarshal externals0 = emptyObjectDecoder"
  "json_Unmarshal_Event externals0 = (\<lambda>text event. (None, event))"
  "FindGithubRepo externals0 = (\<lambda>repoPath githubInstance. Inr ''octo/repo'')"
  "ContainerWorkdir externals0 = ''/repo''"
  by (simp_all add: externals0_def)

lemma newGithubContext_rc0:
  "Workflow (newGithubContext ext rc0) = ''CI''"
  "GithubContext.Actor (newGithubContext ext rc0) = ''octocat''"
  "GithubContext.EventName (newGithubContext ext rc0) = ''push''"
  "RunID (newGithubContext ext rc0) = []"
  by (simp_all add: newGithubContext_def rc0_def index_def)

text \<open>The theorem there: with \<open>{}\<close> the result is the context filled from \<open>rc0\<close>, and
  with \<open>{\<close> it is the result without a base.\<close>

theorem getGithubContext_base_witness:
  "GithubContextBase (rc0\<lparr>GithubContextBase := Some ''{}''\<rparr>) = Some ''{}'' \<and>
   json_Unmarshal externals0 ''{}'' (newGithubContext externals0 (rc0\<lparr>GithubContextBase := Some ''{}''\<rparr>))
     = (None, newGithubContext externals0 rc0) \<and>
   getGithubContext externals0 (rc0\<lparr>GithubContextBase := Some ''{}''\<rparr>)
     = newGithubContext externals0 rc0 \<and>
   GithubContextBase (rc0\<lparr>GithubContextBase := Some ''{''\<rparr>) = Some ''{'' \<and>
   json_Unmarshal externals0 ''{'' (newGithubContext externals0 (rc0\<lparr>GithubContextBase := Some ''{''\<rparr>))
     = (Some (Err ''unexpected end of JSON input''), newGithubContext externals0 rc0) \<and>
   getGithubContext externals0 (rc0\<lparr>GithubContextBase := Some ''{''\<rparr>)
     = getGithubContext externals0 rc0 \<and>
   GithubContextBase rc0 = None \<and>
   getGithubContext externals0 rc0 = applyDefaults externals0 (newGithubContext externals0 rc0) rc0"
proof -
  let ?rc = "rc0\<lparr>GithubContextBase := Some ''{}''\<rparr>"
  let ?bad = "rc0\<lparr>GithubContextBase := Some ''{''\<rparr>"
  have b: "GithubContextBase ?rc = Some ''{}''" "GithubContextBase ?bad = Some ''{''"
    by simp_all
  have b0: "GithubContextBase rc0 = None" by (simp add: rc0_def)
  have u: "json_Unmarshal externals0 ''{}'' (newGithubContext externals0 ?rc)
     = (None, newGithubContext externals0 rc0)"
    unfolding newGithubContext_base externals0_facts by (simp add: emptyObjectDecoder_def)
  have v: "json_Unmarshal externals0 ''{'' (newGithubContext externals0 ?bad)
     = (Some (Err ''unexpected end of JSON input''), newGithubContext externals0 rc0)"
    unfolding newGithubContext_base externals0_facts by (simp add: emptyObjectDecoder_def)
  have g1: "getGithubContext externals0 ?rc = newGithubContext externals0 rc0"
    using getGithubContext_base[where rc = ?rc and base = "''{}''" and ext = externals0
      and ghc = "newGithubContext externals0 rc0" and proj = Workflow, THEN conjunct1] b(1) u
    by blast
  have z: "?bad\<lparr>GithubContextBase := None\<rparr> = rc0" by (simp add: rc0_def)
  have v': "json_Unmarshal externals0 ''{'' (newGithubContext externals0 ?bad)
     = (Some (Err ''unexpected end of JSON input''), newGithubContext externals0 ?bad)"
    using v unfolding newGithubContext_base .
  have "getGithubContext externals0 ?bad =
      getGithubContext externals0 (?bad\<lparr>GithubContextBase := None\<rparr>)"
    using getGithubContext_base[where rc = ?bad and base = "''{''" and ext = externals0
      and err = "Err ''unexpected end of JSON input''"
      and ghc = "newGithubContext externals0 ?bad" and proj = Workflow,
      THEN conjunct2, THEN conjunct1] b(2) v'
    by blast
  then have g2: "getGithubContext externals0 ?bad = getGithubContext externals0 rc0"
    unfolding z .
  have g3: "getGithubContext externals0 rc0 =
      applyDefaults externals0 (newGithubContext externals0 rc0) rc0"
    using getGithubContext_base[where rc = rc0 and ext = externals0 and proj = Workflow,
      THEN conjunct2, THEN conjunct2] b0
    by blast
  from b(1) u g1 b(2) v g2 b0 g3 show ?thesis by (intro conjI)
qed

text \<open>
  C7 as stated fails at the base \<open>{}\<close>. It decodes without an error, and what it holds is
  a context with every field empty. The result is not that context: it has the workflow
  name, the actor and the event name of the run context, which the base does not hold.
\<close>

theorem getGithubContext_merge_counterexample:
  "json_Unmarshal externals0 ''{}'' zeroGithubContext = (None, zeroGithubContext) \<and>
   getGithubContext externals0 (rc0\<lparr>GithubContextBase := Some ''{}''\<rparr>) \<noteq> zeroGithubContext \<and>
   Workflow (getGithubContext externals0 (rc0\<lparr>GithubContextBase := Some ''{}''\<rparr>)) = ''CI'' \<and>
   GithubContext.Actor (getGithubContext externals0 (rc0\<lparr>GithubContextBase := Some ''{}''\<rparr>))
     = ''octocat'' \<and>
   GithubContext.EventName (getGithubContext externals0 (rc0\<lparr>GithubContextBase := Some ''{}''\<rparr>))
     = ''push''"
proof -
  let ?g = "getGithubContext externals0 (rc0\<lparr>GithubContextBase := Some ''{}''\<rparr>)"
  have u: "json_Unmarshal externals0 ''{}'' zeroGithubContext = (None, zeroGithubContext)"
    unfolding externals0_facts by (simp add: emptyObjectDecoder_def)
  have g: "?g = newGithubContext externals0 rc0"
    by (simp add: getGithubContext_def newGithubContext_base externals0_facts
        emptyObjectDecoder_def)
  have f: "Workflow ?g = ''CI''" "GithubContext.Actor ?g = ''octocat''"
    "GithubContext.EventName ?g = ''push''"
    unfolding g by (simp_all add: newGithubContext_rc0)
  have w: "Workflow zeroGithubContext = []" by (simp add: zeroGithubContext_def)
  have ne: "?g \<noteq> zeroGithubContext"
  proof
    assume "?g = zeroGithubContext"
    then have "Workflow ?g = Workflow zeroGithubContext" by (rule arg_cong)
    with f(1) w show False by simp
  qed
  from u ne f show ?thesis by (intro conjI)
qed

end
